theory Spec2Isabelle
  imports Complex_Main "HOL-Library.Char_ord" "HOL-Library.List_Lexorder"
begin

section \<open>Customer segmentation: the ETL script and the clustering script\<close>

text \<open>
  The development embeds two scripts of the repository.

  \<^item> \<^verbatim>\<open>etl/build_rfm.py\<close>: \<^verbatim>\<open>_normalize_columns\<close> (the resolver of column names)
    and \<^verbatim>\<open>main\<close> (type conversions, cleaning, the snapshot date, the customer-level
    aggregation and the outputs that are written).
  \<^item> \<^verbatim>\<open>model/train_cluster_model.py\<close>: the choice of the number of clusters in
    \<^verbatim>\<open>main\<close> and \<^verbatim>\<open>_segment_names_by_cluster\<close>.

  A pandas column is a list, one entry per row, in row order. A nullable cell is an
  \<open>option\<close> (\<open>None\<close> is NaN or NaT). Floats are modelled by \<open>real\<close>: the comparisons the
  scripts make are exact on floats, rounding is not modelled. A timestamp is an \<open>int\<close>,
  the nanoseconds since the epoch, without the bounds of the 64-bit representation.
  A string is the list of the bytes of its UTF-8 encoding: equality, the order of
  strings, a leading \<open>C\<close> and the removal of spaces and underscores are the same on the
  bytes as on the code points.
  Every exception is a value: a function that can raise returns \<open>error + 'a\<close>.
\<close>

datatype error = ValueError string | IndexError

subsection \<open>The library under the ETL script\<close>

text \<open>
  Three behaviours of the library decide what the ETL script computes and are not fixed
  by the repository. \<^verbatim>\<open>str.strip\<close> and \<^verbatim>\<open>str.lower\<close> follow the Unicode tables of the
  interpreter (white space such as U+00A0 is stripped, letters outside ASCII are
  folded). What \<^verbatim>\<open>astype(str)\<close> makes of a missing cell depends on the version of
  pandas: before version 3 it becomes the text \<^verbatim>\<open>nan\<close>, from version 3 on it stays
  missing. The three are parameters of the model.
\<close>

datatype pandas_version = Before_3 | From_3

record library =
  str_strip :: "string \<Rightarrow> string"
  str_lower :: "string \<Rightarrow> string"
  pandas :: pandas_version

subsection \<open>Python string operations\<close>

text \<open>\<^verbatim>\<open>s.replace(" ", "").replace("_", "")\<close>: both patterns are one character long.\<close>

definition remove_char :: "char \<Rightarrow> string \<Rightarrow> string" where
  "remove_char x s = filter (\<lambda>c. c \<noteq> x) s"

text \<open>\<^verbatim>\<open>s.lower().replace(" ", "").replace("_", "")\<close>, the key under which a name is
  looked up.\<close>

definition norm_key :: "library \<Rightarrow> string \<Rightarrow> string" where
  "norm_key lib s = remove_char (CHR ''_'') (remove_char (CHR '' '') (str_lower lib s))"

text \<open>\<^verbatim>\<open>sep.join(parts)\<close>.\<close>

fun join :: "string \<Rightarrow> string list \<Rightarrow> string" where
  "join sep [] = []"
| "join sep [x] = x"
| "join sep (x # y # ys) = x @ sep @ join sep (y # ys)"

subsection \<open>\<^verbatim>\<open>_normalize_columns\<close> of \<^verbatim>\<open>etl/build_rfm.py\<close>\<close>

text \<open>The dictionary comprehension \<^verbatim>\<open>{key(c): c for c in df.columns}\<close>: a later column
  with the same key replaces an earlier one.\<close>

definition build_lookup :: "library \<Rightarrow> string list \<Rightarrow> (string \<rightharpoonup> string)" where
  "build_lookup lib columns =
     fold (\<lambda>c m. m(norm_key lib (str_strip lib c) \<mapsto> c)) columns Map.empty"

text \<open>The inner function \<^verbatim>\<open>pick\<close>: the candidates are tried in the order given.\<close>

fun pick :: "library \<Rightarrow> (string \<rightharpoonup> string) \<Rightarrow> string list \<Rightarrow> string option" where
  "pick lib lookup [] = None"
| "pick lib lookup (cand # cands) =
     (case lookup (norm_key lib cand) of
        Some c \<Rightarrow> Some c
      | None \<Rightarrow> pick lib lookup cands)"

text \<open>The calls of \<^verbatim>\<open>pick\<close>, in the order in which \<^verbatim>\<open>mapping\<close> is filled.\<close>

definition field_candidates :: "(string \<times> string list) list" where
  "field_candidates =
     [(''InvoiceNo'', [''InvoiceNo'', ''Invoice'', ''InvoiceNo.'']),
      (''StockCode'', [''StockCode'', ''Stock Code'']),
      (''Description'', [''Description'']),
      (''Quantity'', [''Quantity'', ''Qty'']),
      (''InvoiceDate'', [''InvoiceDate'', ''Invoice Date'']),
      (''UnitPrice'', [''UnitPrice'', ''Price'', ''Unit Price'']),
      (''CustomerID'', [''CustomerID'', ''Customer ID'', ''CustomerId'']),
      (''Country'', [''Country''])]"

definition resolve :: "library \<Rightarrow> string list \<Rightarrow> (string \<times> string option) list" where
  "resolve lib columns =
     map (\<lambda>(field, cands). (field, pick lib (build_lookup lib columns) cands)) field_candidates"

definition missing_fields :: "(string \<times> string option) list \<Rightarrow> string list" where
  "missing_fields mapping = map fst (filter (\<lambda>(k, v). v = None) mapping)"

definition schema_message :: "string list \<Rightarrow> string list \<Rightarrow> string" where
  "schema_message missing columns =
     ''Dataset missing required columns: '' @ join '', '' missing @ [CHR 0x0A] @
     ''Found columns: '' @ join '', '' columns"

text \<open>The dictionary \<^verbatim>\<open>{v: k for k, v in mapping.items()}\<close> given to \<^verbatim>\<open>df.rename\<close>,
  applied to one column name.\<close>

definition rename_column :: "(string \<times> string option) list \<Rightarrow> string \<Rightarrow> string" where
  "rename_column mapping c =
     (case filter (\<lambda>(k, v). v = Some c) mapping of
        [] \<Rightarrow> c
      | kvs \<Rightarrow> fst (last kvs))"

text \<open>The function takes the column names of the frame and returns the renamed column
  names, or raises. The rows of the frame are not read. The names are stripped when
  \<^verbatim>\<open>df.columns\<close> is assigned and once more when the dictionary is built.\<close>

definition normalize_columns :: "library \<Rightarrow> string list \<Rightarrow> error + string list" where
  "normalize_columns lib raw_columns =
     (let columns = map (str_strip lib) raw_columns;
          mapping = resolve lib columns;
          missing = missing_fields mapping
      in if missing \<noteq> []
         then Inl (ValueError (schema_message missing columns))
         else Inr (map (rename_column mapping) columns))"

subsection \<open>Rows and type conversions of \<^verbatim>\<open>main\<close> in \<^verbatim>\<open>etl/build_rfm.py\<close>\<close>

text \<open>
  A row of \<^verbatim>\<open>df_raw[REQUIRED_COLS]\<close>. The invoice cell is the text that \<^verbatim>\<open>str\<close>
  gives for the value of the cell (\<^verbatim>\<open>489434.0\<close> for a float), or \<open>None\<close> when the cell is
  missing. The cells of the four coerced columns hold what
  \<^verbatim>\<open>pd.to_datetime(..., errors="coerce")\<close> and \<^verbatim>\<open>pd.to_numeric(..., errors="coerce")\<close>
  return for them: the parsed value, or \<open>None\<close> for a missing or unparseable cell. The
  parsers themselves are library code and are not modelled.
\<close>

record raw_row =
  raw_InvoiceNo :: "string option"
  raw_StockCode :: "string option"
  raw_Description :: "string option"
  raw_Quantity :: "real option"
  raw_InvoiceDate :: "int option"
  raw_UnitPrice :: "real option"
  raw_CustomerID :: "real option"
  raw_Country :: "string option"

record row =
  InvoiceNo :: "string option"
  StockCode :: "string option"
  Description :: "string option"
  Quantity :: "real option"
  InvoiceDate :: "int option"
  UnitPrice :: "real option"
  CustomerID :: "real option"
  Country :: "string option"

record tx = row +
  LineTotal :: "real option"

text \<open>\<^verbatim>\<open>astype(str)\<close>: a missing cell becomes the text \<^verbatim>\<open>nan\<close> before version 3 of
  pandas, and stays missing from version 3 on.\<close>

definition astype_str :: "pandas_version \<Rightarrow> string option \<Rightarrow> string option" where
  "astype_str version cell =
     (case cell of
        Some s \<Rightarrow> Some s
      | None \<Rightarrow> (case version of Before_3 \<Rightarrow> Some ''nan'' | From_3 \<Rightarrow> None))"

definition type_conversions :: "library \<Rightarrow> raw_row \<Rightarrow> row" where
  "type_conversions lib r =
     \<lparr>InvoiceNo = astype_str (pandas lib) (raw_InvoiceNo r),
      StockCode = raw_StockCode r,
      Description = raw_Description r,
      Quantity = raw_Quantity r,
      InvoiceDate = raw_InvoiceDate r,
      UnitPrice = raw_UnitPrice r,
      CustomerID = raw_CustomerID r,
      Country = raw_Country r\<rparr>"

text \<open>\<^verbatim>\<open>isna().sum()\<close> of a column.\<close>

definition isna_sum :: "'a option list \<Rightarrow> nat" where
  "isna_sum column = length (filter (\<lambda>v. v = None) column)"

subsection \<open>Cleaning\<close>

text \<open>\<^verbatim>\<open>df["InvoiceNo"].str.startswith("C", na=False)\<close>, row by row: false for a
  missing invoice.\<close>

definition is_cancel :: "'a row_scheme \<Rightarrow> bool" where
  "is_cancel r =
     (case InvoiceNo r of
        None \<Rightarrow> False
      | Some s \<Rightarrow> (case s of [] \<Rightarrow> False | c # _ \<Rightarrow> c = CHR ''C''))"

text \<open>\<^verbatim>\<open>dropna(subset=["InvoiceDate", "CustomerID", "UnitPrice", "Quantity"])\<close>.\<close>

definition notna_critical :: "'a row_scheme \<Rightarrow> bool" where
  "notna_critical r =
     (InvoiceDate r \<noteq> None \<and> CustomerID r \<noteq> None \<and> UnitPrice r \<noteq> None \<and> Quantity r \<noteq> None)"

definition dropna :: "'a row_scheme list \<Rightarrow> 'a row_scheme list" where
  "dropna df = filter notna_critical df"

text \<open>\<^verbatim>\<open>df_clean[~is_cancel]\<close>: the mask is aligned on the row labels, so each row
  is tested with its own invoice.\<close>

definition drop_cancel :: "'a row_scheme list \<Rightarrow> 'a row_scheme list" where
  "drop_cancel df = filter (\<lambda>r. \<not> is_cancel r) df"

text \<open>A comparison with a missing value is false.\<close>

definition gt_zero :: "real option \<Rightarrow> bool" where
  "gt_zero v = (case v of None \<Rightarrow> False | Some x \<Rightarrow> x > 0)"

definition positive :: "'a row_scheme \<Rightarrow> bool" where
  "positive r = (gt_zero (Quantity r) \<and> gt_zero (UnitPrice r))"

definition keep_positive :: "'a row_scheme list \<Rightarrow> 'a row_scheme list" where
  "keep_positive df = filter positive df"

definition clean :: "'a row_scheme list \<Rightarrow> 'a row_scheme list" where
  "clean df = keep_positive (drop_cancel (dropna df))"

text \<open>\<^verbatim>\<open>df_clean["Quantity"] * df_clean["UnitPrice"]\<close>: a missing factor gives a
  missing product.\<close>

definition mul_opt :: "real option \<Rightarrow> real option \<Rightarrow> real option" where
  "mul_opt a b = (case a of None \<Rightarrow> None | Some x \<Rightarrow> (case b of None \<Rightarrow> None | Some y \<Rightarrow> Some (x * y)))"

definition add_line_total :: "row \<Rightarrow> tx" where
  "add_line_total r =
     \<lparr>InvoiceNo = InvoiceNo r,
      StockCode = StockCode r,
      Description = Description r,
      Quantity = Quantity r,
      InvoiceDate = InvoiceDate r,
      UnitPrice = UnitPrice r,
      CustomerID = CustomerID r,
      Country = Country r,
      LineTotal = mul_opt (Quantity r) (UnitPrice r)\<rparr>"

subsection \<open>Aggregation\<close>

text \<open>The values of a column that are not missing, in row order.\<close>

definition present :: "'a option list \<Rightarrow> 'a list" where
  "present column = concat (map (\<lambda>v. case v of None \<Rightarrow> [] | Some x \<Rightarrow> [x]) column)"

text \<open>\<^verbatim>\<open>Series.max()\<close>: missing values are skipped, and the maximum of no value is
  missing.\<close>

definition series_max :: "('a::linorder) option list \<Rightarrow> 'a option" where
  "series_max column =
     (case present column of [] \<Rightarrow> None | v # vs \<Rightarrow> Some (fold max vs v))"

definition day_ns :: int where
  "day_ns = 86400000000000"

text \<open>\<^verbatim>\<open>df_clean["InvoiceDate"].max() + timedelta(days=1)\<close>; \<^verbatim>\<open>NaT\<close> plus a day is
  \<^verbatim>\<open>NaT\<close>.\<close>

definition snapshot_date :: "'a row_scheme list \<Rightarrow> int option" where
  "snapshot_date df_clean = map_option (\<lambda>m. m + day_ns) (series_max (map InvoiceDate df_clean))"

text \<open>\<^verbatim>\<open>lambda x: int((snapshot_date - x.max()).days)\<close>: \<^verbatim>\<open>days\<close> is the floor of the
  difference in days; on \<^verbatim>\<open>NaT\<close> it is NaN, which \<^verbatim>\<open>int\<close> refuses.\<close>

definition agg_recency_days :: "int option \<Rightarrow> int option list \<Rightarrow> error + int" where
  "agg_recency_days snapshot x =
     (case snapshot of
        None \<Rightarrow> Inl (ValueError ''cannot convert float NaN to integer'')
      | Some s \<Rightarrow>
          (case series_max x of
             None \<Rightarrow> Inl (ValueError ''cannot convert float NaN to integer'')
           | Some m \<Rightarrow> Inr ((s - m) div day_ns)))"

text \<open>\<^verbatim>\<open>nunique\<close> of a column: the number of distinct values; missing values are
  not counted.\<close>

definition nunique :: "'a option list \<Rightarrow> nat" where
  "nunique column = length (remdups (present column))"

text \<open>\<^verbatim>\<open>sum\<close> of a column: missing values are skipped.\<close>

definition agg_sum :: "real option list \<Rightarrow> real" where
  "agg_sum column = sum_list (present column)"

text \<open>\<^verbatim>\<open>Series.mode()\<close>: the values that occur most often among the values that are
  not missing, sorted in ascending order.\<close>

definition mode :: "('a::linorder) option list \<Rightarrow> 'a list" where
  "mode column =
     (let vs = present column;
          most = fold max (map (count_list vs) vs) 0
      in sort (filter (\<lambda>v. count_list vs v = most) (remdups vs)))"

text \<open>\<^verbatim>\<open>lambda x: x.mode().iloc[0] if len(x.mode()) else x.iloc[0]\<close>.\<close>

definition agg_country :: "string option list \<Rightarrow> error + string option" where
  "agg_country x =
     (case mode x of
        m # _ \<Rightarrow> Inr (Some m)
      | [] \<Rightarrow> (case x of [] \<Rightarrow> Inl IndexError | v # _ \<Rightarrow> Inr v))"

record rfm =
  customer_id :: real
  recency_days :: int
  frequency_invoices :: nat
  monetary_value :: real
  country :: "string option"

text \<open>\<^verbatim>\<open>groupby("CustomerID")\<close>: one group per customer id that is not missing, the
  groups in ascending order of the id, the rows of a group in row order.\<close>

definition group_keys :: "'a row_scheme list \<Rightarrow> real list" where
  "group_keys df = sort (remdups (present (map CustomerID df)))"

definition group_rows :: "'a row_scheme list \<Rightarrow> real \<Rightarrow> 'a row_scheme list" where
  "group_rows df c = filter (\<lambda>r. CustomerID r = Some c) df"

definition agg_group :: "int option \<Rightarrow> tx list \<Rightarrow> real \<Rightarrow> error + rfm" where
  "agg_group snapshot df c =
     (let g = group_rows df c in
      case agg_recency_days snapshot (map InvoiceDate g) of
        Inl e \<Rightarrow> Inl e
      | Inr rec \<Rightarrow>
          (case agg_country (map Country g) of
             Inl e \<Rightarrow> Inl e
           | Inr ctry \<Rightarrow>
               Inr \<lparr>customer_id = c,
                    recency_days = rec,
                    frequency_invoices = nunique (map InvoiceNo g),
                    monetary_value = agg_sum (map LineTotal g),
                    country = ctry\<rparr>))"

text \<open>Applying a function that can raise to each element, in order; the first
  exception ends the traversal.\<close>

fun map_raise :: "('a \<Rightarrow> error + 'b) \<Rightarrow> 'a list \<Rightarrow> error + 'b list" where
  "map_raise f [] = Inr []"
| "map_raise f (x # xs) =
     (case f x of
        Inl e \<Rightarrow> Inl e
      | Inr y \<Rightarrow> (case map_raise f xs of Inl e \<Rightarrow> Inl e | Inr ys \<Rightarrow> Inr (y # ys)))"

definition build_rfm :: "int option \<Rightarrow> tx list \<Rightarrow> error + rfm list" where
  "build_rfm snapshot df = map_raise (agg_group snapshot df) (group_keys df)"

subsection \<open>\<^verbatim>\<open>main\<close> of \<^verbatim>\<open>etl/build_rfm.py\<close>\<close>

text \<open>What a run writes: the two tables and the figures of the quality report.\<close>

record outputs =
  transactions_clean :: "tx list"
  customers_rfm :: "rfm list"
  n_rows_raw :: nat
  null_invoice_date_raw :: nat
  null_customer_raw :: nat
  null_price_raw :: nat
  null_qty_raw :: nat
  n_cancel :: nat
  report_snapshot :: "int option"

text \<open>The run on a frame with the given column names and rows. Nothing is written
  before the aggregation has returned, so an exception leaves no output.\<close>

definition main :: "library \<Rightarrow> string list \<Rightarrow> raw_row list \<Rightarrow> error + outputs" where
  "main lib raw_columns raw_rows =
     (case normalize_columns lib raw_columns of
        Inl e \<Rightarrow> Inl e
      | Inr columns \<Rightarrow>
          (let df = map (type_conversions lib) raw_rows;
               df_clean = map add_line_total (clean df);
               snapshot = snapshot_date df_clean
           in case build_rfm snapshot df_clean of
                Inl e \<Rightarrow> Inl e
              | Inr rfm_table \<Rightarrow>
                  Inr \<lparr>transactions_clean = df_clean,
                       customers_rfm = rfm_table,
                       n_rows_raw = length df,
                       null_invoice_date_raw = isna_sum (map InvoiceDate df),
                       null_customer_raw = isna_sum (map CustomerID df),
                       null_price_raw = isna_sum (map UnitPrice df),
                       null_qty_raw = isna_sum (map Quantity df),
                       n_cancel = length (filter is_cancel df),
                       report_snapshot = snapshot\<rparr>))"

subsection \<open>The customer table and its encoding in \<^verbatim>\<open>model/train_cluster_model.py\<close>\<close>

text \<open>A row of the frame that \<^verbatim>\<open>_normalize_columns\<close> of the training script returns.\<close>

record customer =
  cust :: real
  Recency :: real
  Frequency :: real
  Monetary :: real

text \<open>\<^verbatim>\<open>np.log1p\<close>, on the reals.\<close>

definition log1p :: "real \<Rightarrow> real" where
  "log1p x = ln (1 + x)"

text \<open>\<^verbatim>\<open>np.column_stack\<close> of the three columns: one feature vector per customer.\<close>

definition features :: "customer list \<Rightarrow> real list list" where
  "features rfm_table =
     map (\<lambda>c. [log1p (Recency c), log1p (Frequency c), log1p (Monetary c)]) rfm_table"

definition mean :: "real list \<Rightarrow> real" where
  "mean xs = sum_list xs / real (length xs)"

text \<open>The scale of \<^verbatim>\<open>StandardScaler\<close>: the population standard deviation, and 1 in
  its place when it is 0.\<close>

definition scale :: "real list \<Rightarrow> real" where
  "scale xs =
     (let sd = sqrt (sum_list (map (\<lambda>x. (x - mean xs)\<^sup>2) xs) / real (length xs))
      in if sd = 0 then 1 else sd)"

definition feature_column :: "nat \<Rightarrow> real list list \<Rightarrow> real list" where
  "feature_column j X = map (\<lambda>v. v ! j) X"

definition standardize :: "real list list \<Rightarrow> real list list" where
  "standardize X =
     map (\<lambda>v. map (\<lambda>j. (v ! j - mean (feature_column j X)) / scale (feature_column j X)) [0, 1, 2]) X"

text \<open>
  \<^verbatim>\<open>StandardScaler().fit_transform(X)\<close> on the features of the table. The library
  refuses an empty array. A value at or below \<open>-1\<close> has no finite logarithm: the
  scaler refuses an infinite feature, and the first fit of KMeans refuses a NaN; both
  happen before anything else is computed, and are one exception here.
\<close>

definition fit_transform :: "customer list \<Rightarrow> error + real list list" where
  "fit_transform rfm_table =
     (if rfm_table = [] then Inl (ValueError ''Found array with 0 sample(s)'')
      else if \<exists>c\<in>set rfm_table. Recency c \<le> - 1 \<or> Frequency c \<le> - 1 \<or> Monetary c \<le> - 1
      then Inl (ValueError ''Input contains NaN or infinity'')
      else Inr (standardize (features rfm_table)))"

subsection \<open>The two library calls of the selection\<close>




subsection \<open>The choice of the number of clusters in \<^verbatim>\<open>main\<close>\<close>




subsection \<open>\<^verbatim>\<open>_segment_names_by_cluster\<close>\<close>

text \<open>\<^verbatim>\<open>median\<close> of a column: the middle value of the sorted column, or the mean of
  the two middle values; of an empty column it is missing.\<close>

definition median :: "real list \<Rightarrow> real option" where
  "median xs =
     (let s = sort xs; n = length s
      in if n = 0 then None
         else if odd n then Some (s ! (n div 2))
         else Some ((s ! (n div 2 - 1) + s ! (n div 2)) / 2))"

text \<open>One row of \<open>grp\<close> per cluster, in ascending order of the cluster id: the
  cluster id and the medians of recency, frequency and monetary value.\<close>

definition grp :: "(customer \<times> nat) list \<Rightarrow> (nat \<times> real option \<times> real option \<times> real option) list" where
  "grp rfm_scored =
     map (\<lambda>cl. let g = map fst (filter (\<lambda>(c, l). l = cl) rfm_scored)
               in (cl, median (map Recency g), median (map Frequency g),
                   median (map Monetary g)))
       (sort (remdups (map snd rfm_scored)))"

text \<open>\<^verbatim>\<open>rank(method="dense")\<close>: the rank of a value is the number of distinct
  values of the column that are not after it; a missing value has no rank.\<close>

definition rank_desc :: "real option list \<Rightarrow> real option \<Rightarrow> nat option" where
  "rank_desc col v =
     map_option (\<lambda>x. length (remdups (filter (\<lambda>w. x \<le> w) (present col)))) v"

definition rank_asc :: "real option list \<Rightarrow> real option \<Rightarrow> nat option" where
  "rank_asc col v =
     map_option (\<lambda>x. length (remdups (filter (\<lambda>w. w \<le> x) (present col)))) v"

text \<open>\<^verbatim>\<open>rank <= 2\<close>; a comparison with a missing rank is false.\<close>

definition le2 :: "nat option \<Rightarrow> bool" where
  "le2 r = (case r of None \<Rightarrow> False | Some n \<Rightarrow> n \<le> 2)"

definition segment_label :: "bool \<Rightarrow> bool \<Rightarrow> string" where
  "segment_label strong recent =
     (if strong \<and> recent then ''Champions''
      else if strong \<and> \<not> recent then ''Loyal (Re-engage)''
      else if \<not> strong \<and> recent then ''New / Promising''
      else ''At Risk / Lost'')"

text \<open>The first loop: the dictionary \<open>names\<close> before collisions are resolved, in
  the order in which its keys are inserted.\<close>

definition heuristic_names :: "(customer \<times> nat) list \<Rightarrow> (nat \<times> string) list" where
  "heuristic_names rfm_scored =
     (let g = grp rfm_scored;
          rec_col = map (\<lambda>(cl, r, f, m). r) g;
          freq_col = map (\<lambda>(cl, r, f, m). f) g;
          mon_col = map (\<lambda>(cl, r, f, m). m) g
      in map (\<lambda>(cl, r, f, m).
                let strong = (le2 (rank_desc mon_col m) \<and> le2 (rank_desc freq_col f));
                    recent = le2 (rank_asc rec_col r)
                in (cl, segment_label strong recent)) g)"

text \<open>\<^verbatim>\<open>str\<close> of a cluster id, which is not negative.\<close>

fun str_nat :: "nat \<Rightarrow> string" where
  "str_nat n =
     (if n < 10 then [char_of (48 + n)]
      else str_nat (n div 10) @ [char_of (48 + n mod 10)])"

declare str_nat.simps [simp del]

text \<open>The second loop, over \<^verbatim>\<open>list(names.items())\<close>: \<open>seen\<close> holds the names met so
  far, and a name met again is replaced by \<^verbatim>\<open>f"{nm} ({cl})"\<close>.\<close>

fun resolve_collisions :: "string list \<Rightarrow> (nat \<times> string) list \<Rightarrow> (nat \<times> string) list" where
  "resolve_collisions seen [] = []"
| "resolve_collisions seen ((cl, nm) # rest) =
     (if nm \<in> set seen
      then (cl, nm @ '' ('' @ str_nat cl @ '')'') # resolve_collisions seen rest
      else (cl, nm) # resolve_collisions (nm # seen) rest)"

definition segment_names_by_cluster :: "(customer \<times> nat) list \<Rightarrow> (nat \<times> string) list" where
  "segment_names_by_cluster rfm_scored = resolve_collisions [] (heuristic_names rfm_scored)"

subsection \<open>\<^verbatim>\<open>main\<close> of \<^verbatim>\<open>model/train_cluster_model.py\<close>\<close>



subsection \<open>Example data\<close>

text \<open>\<^verbatim>\<open>str.lower\<close> and \<^verbatim>\<open>str.strip\<close> as they act on strings of ASCII characters,
  where no Unicode table is needed: the letters \<open>A\<close> to \<open>Z\<close> are folded, and the ASCII
  characters for which \<^verbatim>\<open>str.isspace\<close> holds are removed at both ends. The strings of
  the examples are ASCII.\<close>

definition ascii_lower_char :: "char \<Rightarrow> char" where
  "ascii_lower_char c =
     (if CHR ''A'' \<le> c \<and> c \<le> CHR ''Z'' then char_of (of_char c + (32::nat)) else c)"

definition ascii_lower :: "string \<Rightarrow> string" where
  "ascii_lower s = map ascii_lower_char s"

definition ascii_is_space :: "char \<Rightarrow> bool" where
  "ascii_is_space c = (of_char c \<in> {9, 10, 11, 12, 13, 28, 29, 30, 31, 32 :: nat})"

definition ascii_strip :: "string \<Rightarrow> string" where
  "ascii_strip s = rev (dropWhile ascii_is_space (rev (dropWhile ascii_is_space s)))"

text \<open>The library on ASCII strings, with pandas before version 3 and from version 3.\<close>

definition ex_lib :: library where
  "ex_lib = \<lparr>str_strip = ascii_strip, str_lower = ascii_lower, pandas = Before_3\<rparr>"

definition ex_lib3 :: library where
  "ex_lib3 = \<lparr>str_strip = ascii_strip, str_lower = ascii_lower, pandas = From_3\<rparr>"

text \<open>The column names of the Online Retail II workbook, and a few of its rows.\<close>

definition ex_columns :: "string list" where
  "ex_columns =
     [''Invoice'', ''StockCode'', ''Description'', ''Quantity'', ''InvoiceDate'', ''Price'',
      ''Customer ID'', ''Country'']"

text \<open>Column names without a quantity and without a country.\<close>

definition ex_columns_short :: "string list" where
  "ex_columns_short =
     [''INVOICE'', ''stock_code'', ''Description'', ''PRICE'', '' Customer_ID '',
      ''invoice date'']"

definition ex_sale :: raw_row where
  "ex_sale =
     \<lparr>raw_InvoiceNo = Some ''489434'', raw_StockCode = Some ''85048'',
      raw_Description = Some ''GLASS BALL'', raw_Quantity = Some 12,
      raw_InvoiceDate = Some 1259653500000000000, raw_UnitPrice = Some 7,
      raw_CustomerID = Some 13085, raw_Country = Some ''United Kingdom''\<rparr>"

definition ex_cancel :: raw_row where
  "ex_cancel = ex_sale\<lparr>raw_InvoiceNo := Some ''C489449''\<rparr>"

definition ex_no_customer :: raw_row where
  "ex_no_customer = ex_sale\<lparr>raw_CustomerID := None\<rparr>"

definition ex_negative :: raw_row where
  "ex_negative = ex_sale\<lparr>raw_Quantity := Some (- 1)\<rparr>"

definition ex_no_invoice :: raw_row where
  "ex_no_invoice = ex_sale\<lparr>raw_InvoiceNo := None\<rparr>"

definition ex_later_abroad :: raw_row where
  "ex_later_abroad =
     ex_sale\<lparr>raw_InvoiceNo := Some ''489435'', raw_InvoiceDate := Some 1259912700000000000,
       raw_Country := Some ''France''\<rparr>"

definition ex_other_customer :: raw_row where
  "ex_other_customer = ex_sale\<lparr>raw_InvoiceNo := Some ''489436'', raw_CustomerID := Some 13078\<rparr>"

definition ex_frame :: "raw_row list" where
  "ex_frame = [ex_sale, ex_cancel, ex_no_invoice, ex_later_abroad, ex_other_customer]"

text \<open>What the run on \<open>ex_frame\<close> writes with pandas before version 3.\<close>

definition ex_out :: outputs where
  "ex_out =
     \<lparr>transactions_clean =
        map (add_line_total \<circ> type_conversions ex_lib)
          [ex_sale, ex_no_invoice, ex_later_abroad, ex_other_customer],
      customers_rfm =
        [\<lparr>customer_id = 13078, recency_days = 4, frequency_invoices = 1,
          monetary_value = 84, country = Some ''United Kingdom''\<rparr>,
         \<lparr>customer_id = 13085, recency_days = 1, frequency_invoices = 3,
          monetary_value = 252, country = Some ''United Kingdom''\<rparr>],
      n_rows_raw = 5, null_invoice_date_raw = 0, null_customer_raw = 0,
      null_price_raw = 0, null_qty_raw = 0, n_cancel = 1,
      report_snapshot = Some 1259999100000000000\<rparr>"




definition ex_customers :: "customer list" where
  "ex_customers =
     map (\<lambda>(i, r, f, m). \<lparr>cust = i, Recency = r, Frequency = f, Monetary = m\<rparr>)
       [(1, 3, 1, 20), (2, 40, 2, 35), (3, 7, 9, 400), (4, 100, 1, 15), (5, 2, 12, 900),
        (6, 61, 3, 80), (7, 15, 4, 120), (8, 200, 1, 10), (9, 5, 7, 310), (10, 33, 2, 44),
        (11, 90, 5, 150)]"



text \<open>A scored table with five clusters.\<close>

definition ex_scored :: "(customer \<times> nat) list" where
  "ex_scored =
     map (\<lambda>(i, r, f, m, cl). (\<lparr>cust = i, Recency = r, Frequency = f, Monetary = m\<rparr>, cl))
       [(1, 3, 10, 900, 0), (2, 5, 8, 700, 1), (3, 100, 1, 20, 2), (4, 90, 2, 30, 3),
        (5, 80, 1, 25, 4), (6, 4, 9, 800, 0), (7, 120, 1, 10, 2)]"

lemmas ex_rows_defs =
  ex_sale_def ex_cancel_def ex_no_customer_def ex_negative_def ex_no_invoice_def
  ex_later_abroad_def ex_other_customer_def

section \<open>Properties\<close>

subsection \<open>Columns and traversals\<close>

lemma set_present: "set (present column) = {x. Some x \<in> set column}"
  by (induction column) (auto simp: present_def split: option.splits)

lemma series_max_None: "series_max column = None \<longleftrightarrow> (\<forall>v\<in>set column. v = None)"
proof -
  have "present column = [] \<longleftrightarrow> set (present column) = {}" by simp
  also have "\<dots> \<longleftrightarrow> (\<forall>v\<in>set column. v = None)"
    unfolding set_present by (metis (mono_tags, lifting) Collect_empty_eq not_Some_eq)
  finally have e: "present column = [] \<longleftrightarrow> (\<forall>v\<in>set column. v = None)" .
  show ?thesis unfolding e [symmetric] by (cases "present column") (simp_all add: series_max_def)
qed

lemma series_max_Some:
  assumes "series_max column = Some m"
  shows "Some m \<in> set column" and "\<And>x. Some x \<in> set column \<Longrightarrow> x \<le> m"
    and "m = Max {x. Some x \<in> set column}"
proof -
  from assms obtain v vs where p: "present column = v # vs" and m: "m = fold max vs v"
    by (auto simp: series_max_def split: list.splits)
  have mx: "m = Max (set (present column))"
    unfolding p m by (simp only: Max.set_eq_fold)
  have ne: "set (present column) \<noteq> {}" using p by simp
  have "m \<in> set (present column)" unfolding mx using ne by (intro Max_in) simp_all
  then show "Some m \<in> set column" by (simp add: set_present)
  show "\<And>x. Some x \<in> set column \<Longrightarrow> x \<le> m"
  proof -
    fix x assume "Some x \<in> set column"
    then have "x \<in> set (present column)" by (simp add: set_present)
    then show "x \<le> m" unfolding mx by (intro Max_ge) simp_all
  qed
  show "m = Max {x. Some x \<in> set column}" using mx by (simp add: set_present)
qed

lemma clean_filter:
  "clean df = filter (\<lambda>r. notna_critical r \<and> \<not> is_cancel r \<and> positive r) df"
  by (auto simp: clean_def keep_positive_def drop_cancel_def dropna_def intro: filter_cong)

lemma map_raise_Inr: "map_raise f xs = Inr ys \<longleftrightarrow> list_all2 (\<lambda>x y. f x = Inr y) xs ys"
proof (induction xs arbitrary: ys)
  case Nil
  then show ?case by auto
next
  case (Cons x xs)
  show ?case
    by (cases ys) (auto simp: Cons.IH [symmetric] split: sum.splits)
qed

lemma map_raise_total:
  "\<forall>x\<in>set xs. \<exists>y. f x = Inr y \<Longrightarrow> \<exists>ys. map_raise f xs = Inr ys"
proof (induction xs)
  case Nil
  then show ?case by simp
next
  case (Cons x xs)
  then obtain y ys where "f x = Inr y" "map_raise f xs = Inr ys" by auto
  then show ?case by simp
qed

lemma map_raise_member:
  assumes "map_raise f xs = Inr ys" "y \<in> set ys"
  shows "\<exists>x\<in>set xs. f x = Inr y"
proof -
  from assms(1) have l: "list_all2 (\<lambda>x y. f x = Inr y) xs ys" by (simp add: map_raise_Inr)
  from assms(2) obtain i where "i < length ys" "ys ! i = y" by (auto simp: in_set_conv_nth)
  with l have "f (xs ! i) = Inr y" "i < length xs"
    by (auto simp: list_all2_conv_all_nth)
  then show ?thesis by (metis nth_mem)
qed

lemma set_group_keys: "set (group_keys df) = {c. \<exists>r\<in>set df. CustomerID r = Some c}"
  by (force simp: group_keys_def set_present)

lemma clean_rows_valid:
  assumes "t \<in> set (map add_line_total (clean df))"
  shows "InvoiceDate t \<noteq> None" "CustomerID t \<noteq> None"
    "\<exists>q. Quantity t = Some q \<and> 0 < q" "\<exists>p. UnitPrice t = Some p \<and> 0 < p" "\<not> is_cancel t"
  using assms
  by (auto simp: clean_filter add_line_total_def notna_critical_def positive_def gt_zero_def
      is_cancel_def split: option.splits)

lemma agg_country_nonempty: "x \<noteq> [] \<Longrightarrow> \<exists>v. agg_country x = Inr v"
  by (cases x; cases "mode x") (simp_all add: agg_country_def)

lemma agg_group_dated:
  assumes dated: "\<forall>t\<in>set df. InvoiceDate t \<noteq> None" and c: "c \<in> set (group_keys df)"
  shows "\<exists>s m ctry.
           snapshot_date df = Some s
         \<and> series_max (map InvoiceDate (group_rows df c)) = Some m
         \<and> agg_country (map Country (group_rows df c)) = Inr ctry
         \<and> agg_group (snapshot_date df) df c =
             Inr \<lparr>customer_id = c,
                  recency_days = (s - m) div day_ns,
                  frequency_invoices = nunique (map InvoiceNo (group_rows df c)),
                  monetary_value = agg_sum (map LineTotal (group_rows df c)),
                  country = ctry\<rparr>"
proof -
  from c obtain r where r: "r \<in> set df" "CustomerID r = Some c"
    by (auto simp: set_group_keys)
  then have g: "r \<in> set (group_rows df c)" by (simp add: group_rows_def)
  have "series_max (map InvoiceDate df) \<noteq> None"
    using r(1) dated by (auto simp: series_max_None)
  then obtain s where s: "snapshot_date df = Some s"
    by (auto simp: snapshot_date_def)
  have "series_max (map InvoiceDate (group_rows df c)) \<noteq> None"
    using g dated by (auto simp: series_max_None group_rows_def)
  then obtain m where m: "series_max (map InvoiceDate (group_rows df c)) = Some m" by auto
  from g have "map Country (group_rows df c) \<noteq> []" by auto
  then obtain ctry where k: "agg_country (map Country (group_rows df c)) = Inr ctry"
    using agg_country_nonempty by blast
  show ?thesis
    using s m k by (simp add: agg_group_def agg_recency_days_def Let_def)
qed

lemma build_rfm_total:
  assumes "\<forall>t\<in>set df. InvoiceDate t \<noteq> None"
  shows "\<exists>table. build_rfm (snapshot_date df) df = Inr table"
  unfolding build_rfm_def
  by (rule map_raise_total) (metis agg_group_dated assms)

lemma main_Inr:
  assumes "main lib raw_columns raw_rows = Inr out"
  shows "transactions_clean out = map add_line_total (clean (map (type_conversions lib) raw_rows))"
    and "report_snapshot out = snapshot_date (transactions_clean out)"
    and "build_rfm (snapshot_date (transactions_clean out)) (transactions_clean out)
           = Inr (customers_rfm out)"
  using assms by (auto simp: main_def Let_def split: sum.splits)

text \<open>Once the column names resolve, the run returns normally, whatever the rows are.\<close>

lemma main_total:
  assumes "normalize_columns lib raw_columns = Inr columns"
  shows "\<exists>out. main lib raw_columns raw_rows = Inr out"
proof -
  let ?df = "map add_line_total (clean (map (type_conversions lib) raw_rows))"
  have "\<forall>t\<in>set ?df. InvoiceDate t \<noteq> None" using clean_rows_valid(1) by blast
  from build_rfm_total [OF this] obtain table
    where "build_rfm (snapshot_date ?df) ?df = Inr table" ..
  then show ?thesis using assms by (simp add: main_def Let_def)
qed

lemma main_rfm_record:
  assumes "main lib raw_columns raw_rows = Inr out" and "rec \<in> set (customers_rfm out)"
  shows "\<exists>s m ctry.
           customer_id rec \<in> set (group_keys (transactions_clean out))
         \<and> snapshot_date (transactions_clean out) = Some s
         \<and> series_max (map InvoiceDate (group_rows (transactions_clean out) (customer_id rec))) = Some m
         \<and> agg_country (map Country (group_rows (transactions_clean out) (customer_id rec))) = Inr ctry
         \<and> rec = \<lparr>customer_id = customer_id rec,
                  recency_days = (s - m) div day_ns,
                  frequency_invoices =
                    nunique (map InvoiceNo (group_rows (transactions_clean out) (customer_id rec))),
                  monetary_value =
                    agg_sum (map LineTotal (group_rows (transactions_clean out) (customer_id rec))),
                  country = ctry\<rparr>"
proof -
  let ?df = "transactions_clean out"
  have dated: "\<forall>t\<in>set ?df. InvoiceDate t \<noteq> None"
    unfolding main_Inr(1) [OF assms(1)] using clean_rows_valid(1) by blast
  from main_Inr(3) [OF assms(1)] assms(2) obtain c
    where c: "c \<in> set (group_keys ?df)" "agg_group (snapshot_date ?df) ?df c = Inr rec"
    unfolding build_rfm_def by (blast dest: map_raise_member)
  from agg_group_dated [OF dated c(1)] c(2) show ?thesis
    by (metis (no_types, lifting) Inr_inject c(1) rfm.select_convs(1))
qed

subsection \<open>The cleaner\<close>

text \<open>
  Claim C5. A row is in the cleaned set exactly when it is an input row whose date,
  customer id, quantity and unit price are not missing, whose invoice is not a text
  that starts with \<open>C\<close>, and whose quantity and unit price are positive. The cleaned set is the input
  filtered by that conjunction, so each retained row is an input row, unchanged, and the
  three filters give the same set in each of the six orders in which they can be applied.
\<close>

theorem clean_membership:
  "clean df = filter (\<lambda>r. notna_critical r \<and> \<not> is_cancel r \<and> positive r) df
   \<and> (r \<in> set (clean df) \<longleftrightarrow>
        r \<in> set df \<and> InvoiceDate r \<noteq> None \<and> CustomerID r \<noteq> None
        \<and> (\<exists>q. Quantity r = Some q \<and> 0 < q) \<and> (\<exists>p. UnitPrice r = Some p \<and> 0 < p)
        \<and> (case InvoiceNo r of None \<Rightarrow> True | Some s \<Rightarrow> take 1 s \<noteq> ''C''))
   \<and> clean df = keep_positive (dropna (drop_cancel df))
   \<and> clean df = drop_cancel (keep_positive (dropna df))
   \<and> clean df = drop_cancel (dropna (keep_positive df))
   \<and> clean df = dropna (keep_positive (drop_cancel df))
   \<and> clean df = dropna (drop_cancel (keep_positive df))"
proof -
  have mem: "r \<in> set (clean df) \<longleftrightarrow>
        r \<in> set df \<and> InvoiceDate r \<noteq> None \<and> CustomerID r \<noteq> None
        \<and> (\<exists>q. Quantity r = Some q \<and> 0 < q) \<and> (\<exists>p. UnitPrice r = Some p \<and> 0 < p)
        \<and> (case InvoiceNo r of None \<Rightarrow> True | Some s \<Rightarrow> take 1 s \<noteq> ''C'')"
    unfolding clean_filter
    by (auto simp: notna_critical_def is_cancel_def positive_def gt_zero_def
        split: option.splits list.splits)
  have perms: "clean df = keep_positive (dropna (drop_cancel df))"
     "clean df = drop_cancel (keep_positive (dropna df))"
     "clean df = drop_cancel (dropna (keep_positive df))"
     "clean df = dropna (keep_positive (drop_cancel df))"
     "clean df = dropna (drop_cancel (keep_positive df))"
    by (auto simp: clean_def keep_positive_def drop_cancel_def dropna_def intro: filter_cong)
  show ?thesis using clean_filter mem perms by blast
qed

theorem clean_membership_witness:
  "clean (map (type_conversions ex_lib) [ex_sale, ex_cancel, ex_no_customer, ex_negative])
     = [type_conversions ex_lib ex_sale]
   \<and> type_conversions ex_lib ex_sale
       \<in> set (clean (map (type_conversions ex_lib) [ex_sale, ex_cancel, ex_no_customer, ex_negative]))
   \<and> type_conversions ex_lib ex_cancel
       \<notin> set (clean (map (type_conversions ex_lib) [ex_sale, ex_cancel, ex_no_customer, ex_negative]))"
proof -
  let ?df = "map (type_conversions ex_lib) [ex_sale, ex_cancel, ex_no_customer, ex_negative]"
  have a: "clean ?df = filter (\<lambda>r. notna_critical r \<and> \<not> is_cancel r \<and> positive r) ?df"
    using clean_membership [of ?df "type_conversions ex_lib ex_sale"] by (rule conjunct1)
  have b: "filter (\<lambda>r. notna_critical r \<and> \<not> is_cancel r \<and> positive r) ?df
             = [type_conversions ex_lib ex_sale]"
    by (simp add: ex_rows_defs type_conversions_def astype_str_def notna_critical_def
        is_cancel_def positive_def gt_zero_def)
  have c: "type_conversions ex_lib ex_cancel \<noteq> type_conversions ex_lib ex_sale"
    by (simp add: ex_rows_defs type_conversions_def astype_str_def)
  show ?thesis unfolding a b using c by simp
qed

subsection \<open>The snapshot date and recency\<close>

lemma main_ex_frame: "main ex_lib ex_columns ex_frame = Inr ex_out"
  by code_simp

lemma day_ns_pos: "0 < day_ns" by (simp add: day_ns_def)

lemma set_group_rows: "set (group_rows df c) = {r \<in> set df. CustomerID r = Some c}"
  by (auto simp: group_rows_def)

text \<open>
  Claim C6. When a run leaves a cleaned set that is not empty, the snapshot date is the
  largest transaction date of the cleaned set plus one day, it is later than the date of
  every cleaned row, and the recency of every customer, the whole days between the
  snapshot date and the customer's latest transaction, is at least 1.
\<close>

theorem snapshot_recency:
  assumes run: "main lib raw_columns raw_rows = Inr out"
    and nonempty: "transactions_clean out \<noteq> []"
  shows "\<exists>s. report_snapshot out = Some s
         \<and> s = Max {d. \<exists>t\<in>set (transactions_clean out). InvoiceDate t = Some d} + day_ns
         \<and> (\<forall>t\<in>set (transactions_clean out). \<exists>d. InvoiceDate t = Some d \<and> d < s)
         \<and> (\<forall>rec\<in>set (customers_rfm out).
               1 \<le> recency_days rec
             \<and> recency_days rec =
                 (s - Max {d. \<exists>t\<in>set (transactions_clean out).
                              CustomerID t = Some (customer_id rec) \<and> InvoiceDate t = Some d})
                 div day_ns)"
proof -
  let ?df = "transactions_clean out"
  have dated: "\<forall>t\<in>set ?df. InvoiceDate t \<noteq> None"
    unfolding main_Inr(1) [OF run] using clean_rows_valid(1) by blast
  from nonempty obtain t0 where t0: "t0 \<in> set ?df" by (cases ?df) auto
  with dated have "series_max (map InvoiceDate ?df) \<noteq> None"
    by (auto simp: series_max_None)
  then obtain g where g: "series_max (map InvoiceDate ?df) = Some g" by auto
  have gmax: "g = Max {d. \<exists>t\<in>set ?df. InvoiceDate t = Some d}"
  proof -
    have "{x. Some x \<in> set (map InvoiceDate ?df)} = {d. \<exists>t\<in>set ?df. InvoiceDate t = Some d}"
      by force
    with series_max_Some(3) [OF g] show ?thesis by simp
  qed
  have gge: "d \<le> g" if "t \<in> set ?df" "InvoiceDate t = Some d" for t d
  proof -
    from that have "Some d \<in> set (map InvoiceDate ?df)" by force
    then show ?thesis by (rule series_max_Some(2) [OF g])
  qed
  have snap: "report_snapshot out = Some (g + day_ns)"
    using main_Inr(2) [OF run] g by (simp add: snapshot_date_def)
  have before: "\<forall>t\<in>set ?df. \<exists>d. InvoiceDate t = Some d \<and> d < g + day_ns"
  proof
    fix t assume t: "t \<in> set ?df"
    with dated obtain d where d: "InvoiceDate t = Some d" by auto
    with gge [OF t d] day_ns_pos show "\<exists>d. InvoiceDate t = Some d \<and> d < g + day_ns" by auto
  qed
  have recs: "\<forall>rec\<in>set (customers_rfm out).
               1 \<le> recency_days rec
             \<and> recency_days rec =
                 (g + day_ns - Max {d. \<exists>t\<in>set ?df.
                              CustomerID t = Some (customer_id rec) \<and> InvoiceDate t = Some d})
                 div day_ns"
  proof
    fix rec assume rec: "rec \<in> set (customers_rfm out)"
    let ?rows = "group_rows ?df (customer_id rec)"
    from main_rfm_record [OF run rec] obtain s m where
      s: "snapshot_date ?df = Some s"
      and m: "series_max (map InvoiceDate ?rows) = Some m"
      and r: "recency_days rec = (s - m) div day_ns"
      by (metis rfm.select_convs(2))
    from s g have sg: "s = g + day_ns" by (simp add: snapshot_date_def)
    have "Some m \<in> set (map InvoiceDate ?rows)" by (rule series_max_Some(1) [OF m])
    then obtain t where "t \<in> set ?df" "InvoiceDate t = Some m"
      by (auto simp: set_group_rows)
    then have "m \<le> g" by (rule gge)
    then have "day_ns \<le> s - m" using sg by simp
    then have "day_ns div day_ns \<le> (s - m) div day_ns"
      using day_ns_pos by (intro zdiv_mono1) simp_all
    then have one: "1 \<le> recency_days rec" using r day_ns_pos by simp
    have "{x. Some x \<in> set (map InvoiceDate ?rows)}
            = {d. \<exists>t\<in>set ?df. CustomerID t = Some (customer_id rec) \<and> InvoiceDate t = Some d}"
      by (force simp: set_group_rows)
    with series_max_Some(3) [OF m]
    have "m = Max {d. \<exists>t\<in>set ?df. CustomerID t = Some (customer_id rec) \<and> InvoiceDate t = Some d}"
      by simp
    with r sg one show "1 \<le> recency_days rec
             \<and> recency_days rec =
                 (g + day_ns - Max {d. \<exists>t\<in>set ?df.
                              CustomerID t = Some (customer_id rec) \<and> InvoiceDate t = Some d})
                 div day_ns" by simp
  qed
  show ?thesis
    unfolding gmax [symmetric] using snap before recs by blast
qed

theorem snapshot_recency_witness:
  "main ex_lib ex_columns ex_frame = Inr ex_out
   \<and> transactions_clean ex_out \<noteq> []
   \<and> report_snapshot ex_out = Some (1259912700000000000 + day_ns)
   \<and> map recency_days (customers_rfm ex_out) = [4, 1]
   \<and> list_all (\<lambda>rec. 1 \<le> recency_days rec) (customers_rfm ex_out)"
proof -
  have ne: "transactions_clean ex_out \<noteq> []" by (simp add: ex_out_def)
  from snapshot_recency [OF main_ex_frame ne]
  have "\<forall>rec\<in>set (customers_rfm ex_out). 1 \<le> recency_days rec" by blast
  then have "list_all (\<lambda>rec. 1 \<le> recency_days rec) (customers_rfm ex_out)"
    by (simp only: list_all_iff)
  then show ?thesis using main_ex_frame ne by (simp add: ex_out_def day_ns_def)
qed

subsection \<open>A run whose cleaned set is empty\<close>

lemma normalize_ex_columns: "normalize_columns ex_lib ex_columns =
  Inr [''InvoiceNo'', ''StockCode'', ''Description'', ''Quantity'', ''InvoiceDate'', ''UnitPrice'',
      ''CustomerID'', ''Country'']"
  by code_simp

text \<open>
  Claim C1, as the script behaves. The script has no check for an empty cleaned set.
  When the column names resolve and cleaning removes every row, the run completes: it
  writes an empty table of cleaned transactions and an empty customer table, and the
  snapshot date of the report is missing. No exception is raised.
\<close>

theorem empty_clean_set_succeeds:
  assumes schema: "normalize_columns lib raw_columns = Inr columns"
    and empty: "clean (map (type_conversions lib) raw_rows) = []"
  shows "\<exists>out. main lib raw_columns raw_rows = Inr out
           \<and> transactions_clean out = [] \<and> customers_rfm out = []
           \<and> report_snapshot out = None \<and> n_rows_raw out = length raw_rows"
  using assms
  by (simp add: main_def Let_def snapshot_date_def series_max_def present_def build_rfm_def
      group_keys_def)

theorem empty_clean_set_succeeds_witness:
  "normalize_columns ex_lib ex_columns =
     Inr [''InvoiceNo'', ''StockCode'', ''Description'', ''Quantity'', ''InvoiceDate'',
          ''UnitPrice'', ''CustomerID'', ''Country'']
   \<and> clean (map (type_conversions ex_lib) [ex_negative, ex_no_customer]) = []
   \<and> (\<exists>out. main ex_lib ex_columns [ex_negative, ex_no_customer] = Inr out
          \<and> transactions_clean out = [] \<and> customers_rfm out = []
          \<and> report_snapshot out = None
          \<and> n_rows_raw out = length [ex_negative, ex_no_customer])"
proof -
  have e: "clean (map (type_conversions ex_lib) [ex_negative, ex_no_customer]) = []"
    by (simp add: clean_def keep_positive_def drop_cancel_def dropna_def ex_rows_defs
        type_conversions_def astype_str_def notna_critical_def is_cancel_def positive_def
        gt_zero_def)
  from empty_clean_set_succeeds [OF normalize_ex_columns e] normalize_ex_columns e
  show ?thesis by blast
qed

text \<open>A frame that holds only cancellation invoices: the run returns normally, with
  empty tables.\<close>

theorem empty_success_counterexample:
  "clean (map (type_conversions ex_lib) [ex_cancel, ex_cancel]) = []
   \<and> main ex_lib ex_columns [ex_cancel, ex_cancel] =
       Inr \<lparr>transactions_clean = [], customers_rfm = [], n_rows_raw = 2,
            null_invoice_date_raw = 0, null_customer_raw = 0, null_price_raw = 0,
            null_qty_raw = 0, n_cancel = 2, report_snapshot = None\<rparr>"
proof -
  have c: "clean (map (type_conversions ex_lib) [ex_cancel, ex_cancel]) = []"
    by (simp add: clean_def keep_positive_def drop_cancel_def dropna_def ex_rows_defs
        type_conversions_def astype_str_def notna_critical_def is_cancel_def)
  show ?thesis
    using c
    by (simp add: main_def normalize_ex_columns Let_def snapshot_date_def series_max_def
        present_def build_rfm_def group_keys_def isna_sum_def ex_rows_defs type_conversions_def
        astype_str_def is_cancel_def)
qed

subsection \<open>The dominant country\<close>

lemma count_present: "count_list (present column) v = count_list column (Some v)"
  by (induction column) (auto simp: present_def split: option.splits)

lemma fold_max_bound:
  fixes f :: "'a \<Rightarrow> nat"
  shows "fold max (map f vs) a = Max (insert a (f ` set vs))"
proof -
  have "fold max (map f vs) a = Max (set (a # map f vs))"
    by (simp only: Max.set_eq_fold)
  then show ?thesis by simp
qed

lemma most_count:
  fixes vs :: "'a list"
  defines "most \<equiv> fold max (map (count_list vs) vs) 0"
  shows "count_list vs w \<le> most" and "vs \<noteq> [] \<Longrightarrow> \<exists>v\<in>set vs. count_list vs v = most"
proof -
  have most: "most = Max (insert 0 (count_list vs ` set vs))"
    unfolding most_def by (rule fold_max_bound)
  show "count_list vs w \<le> most"
  proof (cases "w \<in> set vs")
    case True
    then show ?thesis unfolding most by (intro Max_ge) auto
  next
    case False
    then show ?thesis by (simp add: count_list_0_iff)
  qed
  assume ne: "vs \<noteq> []"
  have "most \<in> insert 0 (count_list vs ` set vs)"
    unfolding most by (intro Max_in) auto
  moreover have "most \<noteq> 0"
  proof
    assume z: "most = 0"
    from ne obtain v where v: "v \<in> set vs" by (cases vs) auto
    then have "0 < count_list vs v" using count_list_0_iff [of vs v] by auto
    moreover have "count_list vs v \<le> most" unfolding most using v by (intro Max_ge) auto
    ultimately show False using z by simp
  qed
  ultimately show "\<exists>v\<in>set vs. count_list vs v = most" by auto
qed

lemma sort_hd_least:
  assumes "sort xs = y # ys"
  shows "y \<in> set xs" and "\<And>x. x \<in> set xs \<Longrightarrow> y \<le> x"
proof -
  have s: "set xs = set (y # ys)" using assms by (metis set_sort)
  then show "y \<in> set xs" by simp
  have "sorted (y # ys)" using assms by (metis sorted_sort)
  then show "\<And>x. x \<in> set xs \<Longrightarrow> y \<le> x" using s by auto
qed

lemma mode_empty: "present column = [] \<Longrightarrow> mode column = []"
  by (simp add: mode_def)

lemma mode_nonempty:
  assumes "present column \<noteq> []"
  shows "mode column \<noteq> []"
proof -
  from most_count(2) [OF assms] obtain v where
    "v \<in> set (present column)"
    "count_list (present column) v =
       fold max (map (count_list (present column)) (present column)) 0"
    by blast
  then have "v \<in> set (mode column)" by (simp add: mode_def Let_def)
  then show ?thesis by auto
qed

lemma mode_hd:
  assumes "mode column = m # ms"
  shows "Some m \<in> set column"
    and "\<And>w. count_list column (Some w) \<le> count_list column (Some m)"
    and "\<And>w. count_list column (Some w) = count_list column (Some m) \<Longrightarrow> m \<le> w"
proof -
  let ?vs = "present column"
  let ?most = "fold max (map (count_list ?vs) ?vs) 0"
  let ?cands = "filter (\<lambda>v. count_list ?vs v = ?most) (remdups ?vs)"
  have m: "sort ?cands = m # ms" using assms by (simp add: mode_def Let_def)
  from sort_hd_least(1) [OF m] have mc: "m \<in> set ?vs" "count_list ?vs m = ?most" by auto
  from mc(1) show "Some m \<in> set column" by (simp add: set_present)
  show "count_list column (Some w) \<le> count_list column (Some m)" for w
    using most_count(1) [of ?vs w] mc(2) by (simp add: count_present)
  show "m \<le> w" if "count_list column (Some w) = count_list column (Some m)" for w
  proof -
    from that mc(2) have c: "count_list ?vs w = ?most" by (simp add: count_present)
    have "0 < count_list ?vs m" using mc(1) count_list_0_iff [of ?vs m] by auto
    with c mc(2) have "w \<in> set ?vs" by (metis count_list_0_iff less_numeral_extra(3))
    with c have "w \<in> set ?cands" by simp
    then show ?thesis by (rule sort_hd_least(2) [OF m])
  qed
qed

lemma agg_country_cases:
  assumes "agg_country x = Inr v"
  shows "case v of
           Some c \<Rightarrow> Some c \<in> set x
             \<and> (\<forall>w. count_list x (Some w) \<le> count_list x (Some c))
             \<and> (\<forall>w. count_list x (Some w) = count_list x (Some c) \<longrightarrow> c \<le> w)
         | None \<Rightarrow> \<forall>c\<in>set x. c = None"
proof (cases "mode x")
  case Nil
  then have p: "present x = []" using mode_nonempty by blast
  then have allnone: "\<forall>c\<in>set x. c = None"
    using set_present [of x] by (metis (mono_tags, lifting) empty_iff empty_set mem_Collect_eq not_Some_eq)
  from assms Nil obtain rest where "x = v # rest"
    by (cases x) (auto simp: agg_country_def)
  with allnone have "v = None" by simp
  with allnone show ?thesis by simp
next
  case (Cons m ms)
  with assms have v: "v = Some m" by (simp add: agg_country_def)
  from mode_hd [OF Cons] show ?thesis unfolding v by simp
qed

text \<open>
  Claim C3, as the script behaves. The country of a customer is a most frequent value
  among the countries of the customer's cleaned rows that are not missing, and among
  several most frequent values it is the smallest in the order of strings, because
  \<^verbatim>\<open>Series.mode()\<close> returns its values sorted and the script takes the first. When
  every country of the customer is missing, the country is missing.
\<close>

theorem dominant_country_smallest_mode:
  assumes run: "main lib raw_columns raw_rows = Inr out"
    and rec: "rec \<in> set (customers_rfm out)"
  shows "\<exists>cs. cs = map Country (group_rows (transactions_clean out) (customer_id rec))
           \<and> cs \<noteq> []
           \<and> (case country rec of
                 Some c \<Rightarrow> Some c \<in> set cs
                   \<and> (\<forall>w. count_list cs (Some w) \<le> count_list cs (Some c))
                   \<and> (\<forall>w. count_list cs (Some w) = count_list cs (Some c) \<longrightarrow> c \<le> w)
               | None \<Rightarrow> \<forall>c\<in>set cs. c = None)"
proof -
  let ?g = "group_rows (transactions_clean out) (customer_id rec)"
  from main_rfm_record [OF run rec] obtain ctry where
    k: "customer_id rec \<in> set (group_keys (transactions_clean out))"
    and a: "agg_country (map Country ?g) = Inr ctry"
    and c: "country rec = ctry"
    by (metis rfm.select_convs(5))
  from k have "?g \<noteq> []" by (auto simp: set_group_keys group_rows_def filter_empty_conv)
  then have ne: "map Country ?g \<noteq> []" by simp
  from agg_country_cases [OF a] ne show ?thesis unfolding c by simp
qed

theorem dominant_country_smallest_mode_witness:
  "main ex_lib ex_columns ex_frame = Inr ex_out
   \<and> \<lparr>customer_id = 13085, recency_days = 1, frequency_invoices = 3,
       monetary_value = 252, country = Some ''United Kingdom''\<rparr> \<in> set (customers_rfm ex_out)
   \<and> (\<exists>cs. cs = map Country (group_rows (transactions_clean ex_out) 13085)
          \<and> cs \<noteq> []
          \<and> Some ''United Kingdom'' \<in> set cs
          \<and> (\<forall>w. count_list cs (Some w) \<le> count_list cs (Some ''United Kingdom''))
          \<and> (\<forall>w. count_list cs (Some w) = count_list cs (Some ''United Kingdom'')
                \<longrightarrow> ''United Kingdom'' \<le> w))"
proof -
  let ?rec = "\<lparr>customer_id = 13085, recency_days = 1, frequency_invoices = 3,
       monetary_value = 252, country = Some ''United Kingdom''\<rparr>"
  have rec: "?rec \<in> set (customers_rfm ex_out)" by (simp add: ex_out_def)
  from dominant_country_smallest_mode [OF main_ex_frame rec]
  show ?thesis using main_ex_frame rec by simp
qed

text \<open>One customer, a first row from the United Kingdom and a later row from France:
  both countries occur once, and the aggregation returns France, the smaller of the two
  in the order of strings, not the country met first.\<close>

theorem dominant_country_counterexample:
  "map Country (clean (map (type_conversions ex_lib) [ex_sale, ex_later_abroad]))
     = [Some ''United Kingdom'', Some ''France'']
   \<and> map CustomerID (clean (map (type_conversions ex_lib) [ex_sale, ex_later_abroad]))
     = [Some 13085, Some 13085]
   \<and> agg_country [Some ''United Kingdom'', Some ''France''] = Inr (Some ''France'')
   \<and> map_sum id (map country \<circ> customers_rfm) (main ex_lib ex_columns [ex_sale, ex_later_abroad])
     = Inr [Some ''France'']"
proof -
  have a: "map Country (clean (map (type_conversions ex_lib) [ex_sale, ex_later_abroad]))
     = [Some ''United Kingdom'', Some ''France'']"
    by code_simp
  have b: "map CustomerID (clean (map (type_conversions ex_lib) [ex_sale, ex_later_abroad]))
     = [Some 13085, Some 13085]"
    by code_simp
  have c: "agg_country [Some ''United Kingdom'', Some ''France''] = Inr (Some ''France'')"
    by code_simp
  have d: "map_sum id (map country \<circ> customers_rfm) (main ex_lib ex_columns [ex_sale, ex_later_abroad])
     = Inr [Some ''France'']"
    by code_simp
  show ?thesis using a b c d by blast
qed

subsection \<open>Rows without an invoice identifier\<close>

lemma add_line_total_fields [simp]:
  "InvoiceNo (add_line_total r) = InvoiceNo r"
  "CustomerID (add_line_total r) = CustomerID r"
  "Country (add_line_total r) = Country r"
  "InvoiceDate (add_line_total r) = InvoiceDate r"
  by (simp_all add: add_line_total_def)

lemma nunique_card: "nunique column = card {x. Some x \<in> set column}"
  by (simp add: nunique_def length_remdups_card_conv set_present)

lemma frequency_of_record:
  assumes run: "main lib raw_columns raw_rows = Inr out"
    and rec: "rec \<in> set (customers_rfm out)"
  shows "frequency_invoices rec =
           card {s. \<exists>t\<in>set (transactions_clean out).
                      CustomerID t = Some (customer_id rec) \<and> InvoiceNo t = Some s}"
proof -
  let ?df = "transactions_clean out"
  from main_rfm_record [OF run rec]
  have "frequency_invoices rec = nunique (map InvoiceNo (group_rows ?df (customer_id rec)))"
    by (metis rfm.select_convs(3))
  moreover have "{x. Some x \<in> set (map InvoiceNo (group_rows ?df (customer_id rec)))}
                   = {s. \<exists>t\<in>set ?df. CustomerID t = Some (customer_id rec) \<and> InvoiceNo t = Some s}"
    by (force simp: set_group_rows)
  ultimately show ?thesis by (simp add: nunique_card)
qed

lemma missing_invoice_retained:
  assumes run: "main lib raw_columns raw_rows = Inr out"
    and r: "r \<in> set raw_rows" and m: "raw_InvoiceNo r = None"
    and v: "raw_InvoiceDate r \<noteq> None" "raw_CustomerID r \<noteq> None"
      "\<exists>q. raw_Quantity r = Some q \<and> 0 < q" "\<exists>p. raw_UnitPrice r = Some p \<and> 0 < p"
  shows "add_line_total (type_conversions lib r) \<in> set (transactions_clean out)"
    and "InvoiceNo (add_line_total (type_conversions lib r)) =
           (case pandas lib of Before_3 \<Rightarrow> Some ''nan'' | From_3 \<Rightarrow> None)"
proof -
  have n: "InvoiceNo (type_conversions lib r) =
             (case pandas lib of Before_3 \<Rightarrow> Some ''nan'' | From_3 \<Rightarrow> None)"
    using m by (simp add: type_conversions_def astype_str_def)
  have c: "\<not> is_cancel (type_conversions lib r)"
    unfolding is_cancel_def n by (cases "pandas lib") simp_all
  have ok: "notna_critical (type_conversions lib r) \<and> positive (type_conversions lib r)"
    using v by (auto simp: type_conversions_def notna_critical_def positive_def gt_zero_def)
  with r c have "type_conversions lib r \<in> set (clean (map (type_conversions lib) raw_rows))"
    unfolding clean_filter by simp
  then show "add_line_total (type_conversions lib r) \<in> set (transactions_clean out)"
    using main_Inr(1) [OF run] by simp
  show "InvoiceNo (add_line_total (type_conversions lib r)) =
           (case pandas lib of Before_3 \<Rightarrow> Some ''nan'' | From_3 \<Rightarrow> None)"
    using n by simp
qed

text \<open>
  Claim C10, as the script behaves. A row whose invoice cell is missing, and whose date
  and customer id are present and whose quantity and unit price are positive, is
  retained by the cleaner under both versions of pandas: the invoice is not among the
  columns checked for missing values, and neither the text \<^verbatim>\<open>nan\<close> nor a missing
  invoice starts with \<open>C\<close>. The frequency of a customer is the number of distinct
  invoice texts among the customer's cleaned rows that have one. Before version 3 of
  pandas the rows without an invoice carry the text \<^verbatim>\<open>nan\<close> and together add exactly
  one to the number of distinct other texts. From version 3 on their invoice stays
  missing and they add nothing: only rows that came with an invoice are counted.
\<close>

theorem missing_invoice_kept_and_counted:
  assumes run: "main lib raw_columns raw_rows = Inr out"
  shows "(\<forall>r\<in>set raw_rows.
            raw_InvoiceNo r = None \<and> raw_InvoiceDate r \<noteq> None \<and> raw_CustomerID r \<noteq> None
            \<and> (\<exists>q. raw_Quantity r = Some q \<and> 0 < q) \<and> (\<exists>p. raw_UnitPrice r = Some p \<and> 0 < p)
            \<longrightarrow> add_line_total (type_conversions lib r) \<in> set (transactions_clean out))
       \<and> (\<forall>rec\<in>set (customers_rfm out).
            frequency_invoices rec =
              card {s. \<exists>t\<in>set (transactions_clean out).
                         CustomerID t = Some (customer_id rec) \<and> InvoiceNo t = Some s}
          \<and> ((\<exists>r\<in>set raw_rows.
                 raw_InvoiceNo r = None \<and> raw_InvoiceDate r \<noteq> None
                 \<and> raw_CustomerID r = Some (customer_id rec)
                 \<and> (\<exists>q. raw_Quantity r = Some q \<and> 0 < q)
                 \<and> (\<exists>p. raw_UnitPrice r = Some p \<and> 0 < p))
              \<and> pandas lib = Before_3
              \<longrightarrow> frequency_invoices rec =
                    card ({s. \<exists>t\<in>set (transactions_clean out).
                               CustomerID t = Some (customer_id rec) \<and> InvoiceNo t = Some s}
                          - {''nan''}) + 1)
          \<and> (pandas lib = From_3
              \<longrightarrow> frequency_invoices rec =
                    card {s. \<exists>r\<in>set raw_rows.
                               raw_InvoiceNo r = Some s
                               \<and> raw_CustomerID r = Some (customer_id rec)
                               \<and> add_line_total (type_conversions lib r)
                                   \<in> set (transactions_clean out)}))"
proof -
  let ?df = "transactions_clean out"
  let ?texts = "\<lambda>rec. {s. \<exists>t\<in>set ?df. CustomerID t = Some (customer_id rec) \<and> InvoiceNo t = Some s}"
  have kept: "add_line_total (type_conversions lib r) \<in> set ?df"
    if "r \<in> set raw_rows" "raw_InvoiceNo r = None" "raw_InvoiceDate r \<noteq> None"
      "raw_CustomerID r \<noteq> None" "\<exists>q. raw_Quantity r = Some q \<and> 0 < q"
      "\<exists>p. raw_UnitPrice r = Some p \<and> 0 < p" for r
    using that by (rule missing_invoice_retained(1) [OF run])
  have freq: "frequency_invoices rec = card (?texts rec)"
    if "rec \<in> set (customers_rfm out)" for rec
    using that by (rule frequency_of_record [OF run])
  have once: "frequency_invoices rec = card (?texts rec - {''nan''}) + 1"
    if rec: "rec \<in> set (customers_rfm out)"
      and ex: "\<exists>r\<in>set raw_rows.
                 raw_InvoiceNo r = None \<and> raw_InvoiceDate r \<noteq> None
                 \<and> raw_CustomerID r = Some (customer_id rec)
                 \<and> (\<exists>q. raw_Quantity r = Some q \<and> 0 < q)
                 \<and> (\<exists>p. raw_UnitPrice r = Some p \<and> 0 < p)"
      and old: "pandas lib = Before_3" for rec
  proof -
    from ex obtain r where r: "r \<in> set raw_rows" "raw_InvoiceNo r = None"
      "raw_InvoiceDate r \<noteq> None" "raw_CustomerID r = Some (customer_id rec)"
      "\<exists>q. raw_Quantity r = Some q \<and> 0 < q" "\<exists>p. raw_UnitPrice r = Some p \<and> 0 < p"
      by blast
    let ?t = "add_line_total (type_conversions lib r)"
    have t: "?t \<in> set ?df" using r by (intro kept) simp_all
    have "InvoiceNo ?t = (case pandas lib of Before_3 \<Rightarrow> Some ''nan'' | From_3 \<Rightarrow> None)"
      using r by (intro missing_invoice_retained(2) [OF run]) simp_all
    then have i: "InvoiceNo ?t = Some ''nan''" by (simp add: old)
    have c: "CustomerID ?t = Some (customer_id rec)"
      using r(4) by (simp add: type_conversions_def)
    from t c i have mem: "''nan'' \<in> ?texts rec" by blast
    have "?texts rec \<subseteq> the ` InvoiceNo ` set ?df" by force
    then have fin: "finite (?texts rec)" by (rule finite_subset) simp
    show ?thesis
      unfolding freq [OF rec] using card.remove [OF fin mem] by simp
  qed
  have new: "frequency_invoices rec =
               card {s. \<exists>r\<in>set raw_rows.
                          raw_InvoiceNo r = Some s \<and> raw_CustomerID r = Some (customer_id rec)
                          \<and> add_line_total (type_conversions lib r) \<in> set ?df}"
    if rec: "rec \<in> set (customers_rfm out)" and v3: "pandas lib = From_3" for rec
  proof -
    have inv: "InvoiceNo (type_conversions lib r) = raw_InvoiceNo r" for r
      by (simp add: type_conversions_def astype_str_def v3 split: option.splits)
    have cus: "CustomerID (type_conversions lib r) = raw_CustomerID r" for r
      by (simp add: type_conversions_def)
    have img: "set ?df \<subseteq> (\<lambda>r. add_line_total (type_conversions lib r)) ` set raw_rows"
      unfolding main_Inr(1) [OF run] clean_filter by auto
    have "?texts rec = {s. \<exists>r\<in>set raw_rows.
                          raw_InvoiceNo r = Some s \<and> raw_CustomerID r = Some (customer_id rec)
                          \<and> add_line_total (type_conversions lib r) \<in> set ?df}"
    proof (intro set_eqI iffI; clarify)
      fix s t
      assume t: "t \<in> set ?df" "CustomerID t = Some (customer_id rec)" "InvoiceNo t = Some s"
      with img obtain r where r: "r \<in> set raw_rows" "t = add_line_total (type_conversions lib r)"
        by blast
      with t show "\<exists>r\<in>set raw_rows.
                     raw_InvoiceNo r = Some s \<and> raw_CustomerID r = Some (customer_id rec)
                     \<and> add_line_total (type_conversions lib r) \<in> set ?df"
        by (auto simp: inv cus)
    next
      fix s r
      assume "r \<in> set raw_rows" "raw_InvoiceNo r = Some s"
        "raw_CustomerID r = Some (customer_id rec)"
        "add_line_total (type_conversions lib r) \<in> set ?df"
      then show "\<exists>t\<in>set ?df. CustomerID t = Some (customer_id rec) \<and> InvoiceNo t = Some s"
        by (intro bexI [of _ "add_line_total (type_conversions lib r)"]) (simp_all add: inv cus)
    qed
    then show ?thesis using freq [OF rec] by simp
  qed
  show ?thesis using kept freq once new by blast
qed

theorem missing_invoice_kept_and_counted_witness:
  "main ex_lib ex_columns ex_frame = Inr ex_out
   \<and> ex_no_invoice \<in> set ex_frame \<and> raw_InvoiceNo ex_no_invoice = None
   \<and> pandas ex_lib = Before_3
   \<and> add_line_total (type_conversions ex_lib ex_no_invoice) \<in> set (transactions_clean ex_out)
   \<and> map frequency_invoices (customers_rfm ex_out) = [1, 3]
   \<and> card ({s. \<exists>t\<in>set (transactions_clean ex_out).
                  CustomerID t = Some 13085 \<and> InvoiceNo t = Some s} - {''nan''}) + 1 = 3"
proof -
  let ?rec = "\<lparr>customer_id = 13085, recency_days = 1, frequency_invoices = 3,
          monetary_value = 252, country = Some ''United Kingdom''\<rparr>"
  have r: "ex_no_invoice \<in> set ex_frame" by (simp add: ex_frame_def)
  have rec: "?rec \<in> set (customers_rfm ex_out)" by (simp add: ex_out_def)
  have old: "pandas ex_lib = Before_3" by (simp add: ex_lib_def)
  have v: "raw_InvoiceNo ex_no_invoice = None \<and> raw_InvoiceDate ex_no_invoice \<noteq> None
           \<and> raw_CustomerID ex_no_invoice = Some (customer_id ?rec)
           \<and> (\<exists>q. raw_Quantity ex_no_invoice = Some q \<and> 0 < q)
           \<and> (\<exists>p. raw_UnitPrice ex_no_invoice = Some p \<and> 0 < p)"
    by (simp add: ex_rows_defs)
  note inst = missing_invoice_kept_and_counted [OF main_ex_frame]
  from conjunct1 [OF inst, THEN bspec, OF r] v
  have k: "add_line_total (type_conversions ex_lib ex_no_invoice) \<in> set (transactions_clean ex_out)"
    by simp
  have "(\<exists>r\<in>set ex_frame.
          raw_InvoiceNo r = None \<and> raw_InvoiceDate r \<noteq> None
          \<and> raw_CustomerID r = Some (customer_id ?rec)
          \<and> (\<exists>q. raw_Quantity r = Some q \<and> 0 < q)
          \<and> (\<exists>p. raw_UnitPrice r = Some p \<and> 0 < p))
        \<and> pandas ex_lib = Before_3"
    using r v old by blast
  then have "frequency_invoices ?rec =
          card ({s. \<exists>t\<in>set (transactions_clean ex_out).
                     CustomerID t = Some (customer_id ?rec) \<and> InvoiceNo t = Some s}
                - {''nan''}) + 1"
    by (rule mp [OF conjunct2 [OF inst, THEN bspec, OF rec, THEN conjunct2, THEN conjunct1]])
  then have c: "card ({s. \<exists>t\<in>set (transactions_clean ex_out).
                  CustomerID t = Some 13085 \<and> InvoiceNo t = Some s} - {''nan''}) + 1 = 3"
    by simp
  have f: "map frequency_invoices (customers_rfm ex_out) = [1, 3]" by (simp add: ex_out_def)
  show ?thesis using main_ex_frame r v old k c f by blast
qed

text \<open>The same frame under pandas from version 3: the row without an invoice is
  retained with a missing invoice, and the customer with the invoices 489434 and 489435
  and that row has the frequency 2; the row is not counted as an invoice.\<close>

theorem missing_invoice_not_counted_counterexample:
  "map_sum id (map InvoiceNo \<circ> transactions_clean) (main ex_lib3 ex_columns ex_frame)
     = Inr [Some ''489434'', None, Some ''489435'', Some ''489436'']
   \<and> map_sum id (map (\<lambda>rec. (customer_id rec, frequency_invoices rec)) \<circ> customers_rfm)
       (main ex_lib3 ex_columns ex_frame)
     = Inr [(13078, 1), (13085, 2)]"
proof -
  have a: "map_sum id (map InvoiceNo \<circ> transactions_clean) (main ex_lib3 ex_columns ex_frame)
     = Inr [Some ''489434'', None, Some ''489435'', Some ''489436'']"
    by code_simp
  have b: "map_sum id (map (\<lambda>rec. (customer_id rec, frequency_invoices rec)) \<circ> customers_rfm)
       (main ex_lib3 ex_columns ex_frame)
     = Inr [(13078, 1), (13085, 2)]"
    by code_simp
  show ?thesis using a b by (rule conjI)
qed

subsection \<open>The resolver of column names\<close>

lemma fold_update_lookup:
  "fold (\<lambda>c m. m(key c \<mapsto> c)) columns m k =
     (case filter (\<lambda>c. key c = k) columns of [] \<Rightarrow> m k | c # cs \<Rightarrow> Some (last (c # cs)))"
proof (induction columns arbitrary: m)
  case Nil
  then show ?case by simp
next
  case (Cons c columns)
  let ?f = "\<lambda>c m. m(key c \<mapsto> c)"
  have "fold ?f (c # columns) m k = fold ?f columns (m(key c \<mapsto> c)) k"
    by (simp only: fold_simps)
  also have "\<dots> = (case filter (\<lambda>c. key c = k) columns of
                      [] \<Rightarrow> (m(key c \<mapsto> c)) k | c # cs \<Rightarrow> Some (last (c # cs)))"
    by (rule Cons.IH)
  also have "\<dots> = (case filter (\<lambda>c. key c = k) (c # columns) of
                      [] \<Rightarrow> m k | c # cs \<Rightarrow> Some (last (c # cs)))"
    by (cases "filter (\<lambda>c. key c = k) columns") auto
  finally show ?case .
qed

lemma build_lookup_eq:
  "build_lookup lib columns k =
     (case filter (\<lambda>c. norm_key lib (str_strip lib c) = k) columns of
        [] \<Rightarrow> None | c # cs \<Rightarrow> Some (last (c # cs)))"
  unfolding build_lookup_def by (simp add: fold_update_lookup)

lemma build_lookup_matches:
  "build_lookup lib columns k \<noteq> None
     \<longleftrightarrow> (\<exists>c\<in>set columns. norm_key lib (str_strip lib c) = k)"
proof -
  have "(\<exists>c\<in>set columns. norm_key lib (str_strip lib c) = k)
          \<longleftrightarrow> filter (\<lambda>c. norm_key lib (str_strip lib c) = k) columns \<noteq> []"
    by (simp add: filter_empty_conv)
  then show ?thesis
    unfolding build_lookup_eq
    by (cases "filter (\<lambda>c. norm_key lib (str_strip lib c) = k) columns") simp_all
qed

lemma build_lookup_None:
  "build_lookup lib columns k = None
     \<longleftrightarrow> (\<forall>c\<in>set columns. norm_key lib (str_strip lib c) \<noteq> k)"
  using build_lookup_matches [of lib columns k] by blast

lemma pick_find:
  "pick lib lookup cands =
     (case find (\<lambda>cand. lookup (norm_key lib cand) \<noteq> None) cands of
        None \<Rightarrow> None | Some cand \<Rightarrow> lookup (norm_key lib cand))"
  by (induction cands) (auto split: option.splits)

lemma pick_None:
  "pick lib lookup cands = None \<longleftrightarrow> (\<forall>cand\<in>set cands. lookup (norm_key lib cand) = None)"
  by (induction cands) (auto split: option.splits)

lemma missing_fields_resolve:
  "missing_fields (map (\<lambda>(field, cands). (field, pick lib lookup cands)) fcs)
     = map fst (filter (\<lambda>(field, cands). pick lib lookup cands = None) fcs)"
  by (induction fcs) (auto simp: missing_fields_def)

lemma missing_fields_columns:
  "missing_fields (resolve lib columns) =
     map fst (filter (\<lambda>(field, cands).
                 \<forall>cand\<in>set cands. \<forall>c\<in>set columns.
                    norm_key lib (str_strip lib c) \<noteq> norm_key lib cand)
              field_candidates)"
proof -
  have "pick lib (build_lookup lib columns) cands = None \<longleftrightarrow>
          (\<forall>cand\<in>set cands. \<forall>c\<in>set columns.
              norm_key lib (str_strip lib c) \<noteq> norm_key lib cand)"
    for cands
    by (simp add: pick_None build_lookup_None)
  then show ?thesis
    unfolding resolve_def missing_fields_resolve by simp
qed

lemma pick_first_match:
  "pick lib (build_lookup lib columns) cands =
     (case find (\<lambda>cand. \<exists>c\<in>set columns. norm_key lib (str_strip lib c) = norm_key lib cand)
             cands of
        None \<Rightarrow> None
      | Some cand \<Rightarrow>
          Some (last (filter (\<lambda>c. norm_key lib (str_strip lib c) = norm_key lib cand) columns)))"
proof -
  let ?L = "build_lookup lib columns"
  let ?P = "\<lambda>cand. \<exists>c\<in>set columns. norm_key lib (str_strip lib c) = norm_key lib cand"
  have eq: "(\<lambda>cand. ?L (norm_key lib cand) \<noteq> None) = ?P"
    by (rule ext) (rule build_lookup_matches)
  have p: "pick lib ?L cands =
             (case find ?P cands of None \<Rightarrow> None | Some cand \<Rightarrow> ?L (norm_key lib cand))"
    using pick_find [of lib ?L cands] unfolding eq .
  show ?thesis
  proof (cases "find ?P cands")
    case None
    then show ?thesis unfolding p by (simp only: option.case)
  next
    case (Some cand)
    then have "?P cand" by (auto simp: find_Some_iff)
    then have "?L (norm_key lib cand) \<noteq> None"
      by (simp only: build_lookup_matches)
    then have "?L (norm_key lib cand) =
                 Some (last (filter (\<lambda>c. norm_key lib (str_strip lib c) = norm_key lib cand)
                               columns))"
      unfolding build_lookup_eq
      by (cases "filter (\<lambda>c. norm_key lib (str_strip lib c) = norm_key lib cand) columns")
         simp_all
    with Some show ?thesis unfolding p by (simp only: option.case)
  qed
qed

lemma normalize_columns_cases:
  "normalize_columns lib raw_columns =
     (if missing_fields (resolve lib (map (str_strip lib) raw_columns)) \<noteq> []
      then Inl (ValueError
                  (schema_message
                     (missing_fields (resolve lib (map (str_strip lib) raw_columns)))
                     (map (str_strip lib) raw_columns)))
      else Inr (map (rename_column (resolve lib (map (str_strip lib) raw_columns)))
                  (map (str_strip lib) raw_columns)))"
  by (simp add: normalize_columns_def Let_def)

text \<open>
  Claim C7. The key of a name is the name in lower case with its spaces and
  underscores removed; the key of a column name is taken from the column name with the
  white space at its ends stripped. A candidate matches when its key equals the key of
  a column. For each field the first candidate of its list that matches is taken, and
  the field is mapped to the last column with that key. The resolver raises exactly
  when some field has no matching candidate. The message of the error is
  \<^verbatim>\<open>Dataset missing required columns: \<close> followed by the fields without a match, in the
  order of the fields and separated by \<^verbatim>\<open>, \<close>, a line break, and \<^verbatim>\<open>Found columns: \<close>
  followed by all column names, stripped, separated in the same way. The run raises the
  same error whatever the rows are.
\<close>

theorem schema_resolution:
  "(\<forall>s. norm_key lib s
          = filter (\<lambda>c. c \<noteq> CHR ''_'') (filter (\<lambda>c. c \<noteq> CHR '' '') (str_lower lib s)))
   \<and> (\<forall>(field, cands)\<in>set field_candidates.
        pick lib (build_lookup lib (map (str_strip lib) raw_columns)) cands =
          (case find (\<lambda>cand. \<exists>c\<in>set (map (str_strip lib) raw_columns).
                               norm_key lib (str_strip lib c) = norm_key lib cand) cands of
             None \<Rightarrow> None
           | Some cand \<Rightarrow>
               Some (last (filter (\<lambda>c. norm_key lib (str_strip lib c) = norm_key lib cand)
                             (map (str_strip lib) raw_columns)))))
   \<and> ((\<exists>e. normalize_columns lib raw_columns = Inl e) \<longleftrightarrow>
        (\<exists>(field, cands)\<in>set field_candidates.
           \<forall>cand\<in>set cands. \<forall>c\<in>set (map (str_strip lib) raw_columns).
              norm_key lib (str_strip lib c) \<noteq> norm_key lib cand))
   \<and> (\<forall>e. normalize_columns lib raw_columns = Inl e \<longrightarrow>
          e = ValueError
                (''Dataset missing required columns: ''
                 @ join '', ''
                     (map fst (filter (\<lambda>(field, cands).
                         \<forall>cand\<in>set cands. \<forall>c\<in>set (map (str_strip lib) raw_columns).
                            norm_key lib (str_strip lib c) \<noteq> norm_key lib cand)
                        field_candidates))
                 @ [CHR 0x0A] @ ''Found columns: ''
                 @ join '', '' (map (str_strip lib) raw_columns))
        \<and> (\<forall>raw_rows. main lib raw_columns raw_rows = Inl e))"
proof -
  let ?cols = "map (str_strip lib) raw_columns"
  let ?nomatch = "\<lambda>(field :: string, cands).
     \<forall>cand\<in>set cands. \<forall>c\<in>set ?cols. norm_key lib (str_strip lib c) \<noteq> norm_key lib cand"
  let ?missing = "map fst (filter ?nomatch field_candidates)"
  have key: "\<forall>s. norm_key lib s
          = filter (\<lambda>c. c \<noteq> CHR ''_'') (filter (\<lambda>c. c \<noteq> CHR '' '') (str_lower lib s))"
    by (simp add: norm_key_def remove_char_def)
  have m: "missing_fields (resolve lib ?cols) = ?missing"
    by (rule missing_fields_columns)
  have first: "\<forall>(field, cands)\<in>set field_candidates.
        pick lib (build_lookup lib ?cols) cands =
          (case find (\<lambda>cand. \<exists>c\<in>set ?cols.
                               norm_key lib (str_strip lib c) = norm_key lib cand) cands of
             None \<Rightarrow> None
           | Some cand \<Rightarrow>
               Some (last (filter (\<lambda>c. norm_key lib (str_strip lib c) = norm_key lib cand)
                             ?cols)))"
    using pick_first_match [of lib ?cols] by blast
  have "(\<exists>e. normalize_columns lib raw_columns = Inl e) \<longleftrightarrow> ?missing \<noteq> []"
    unfolding normalize_columns_cases m by simp
  also have "\<dots> \<longleftrightarrow> (\<exists>fc\<in>set field_candidates. ?nomatch fc)"
    by (simp add: filter_empty_conv)
  finally have iff: "(\<exists>e. normalize_columns lib raw_columns = Inl e) \<longleftrightarrow>
        (\<exists>(field, cands)\<in>set field_candidates.
           \<forall>cand\<in>set cands. \<forall>c\<in>set ?cols.
              norm_key lib (str_strip lib c) \<noteq> norm_key lib cand)" .
  have err: "e = ValueError
                (''Dataset missing required columns: '' @ join '', '' ?missing
                 @ [CHR 0x0A] @ ''Found columns: '' @ join '', '' ?cols)
        \<and> (\<forall>raw_rows. main lib raw_columns raw_rows = Inl e)"
    if e: "normalize_columns lib raw_columns = Inl e" for e
  proof -
    from e have "e = ValueError (schema_message ?missing ?cols)"
      unfolding normalize_columns_cases m by (simp split: if_splits)
    then have "e = ValueError
                (''Dataset missing required columns: '' @ join '', '' ?missing
                 @ [CHR 0x0A] @ ''Found columns: '' @ join '', '' ?cols)"
      by (simp add: schema_message_def)
    moreover have "main lib raw_columns raw_rows = Inl e" for raw_rows
      using e by (simp add: main_def)
    ultimately show ?thesis by simp
  qed
  show ?thesis using key first iff err by blast
qed

theorem schema_resolution_witness:
  "norm_key ex_lib ''Customer_ID'' = ''customerid''
   \<and> norm_key ex_lib ''Invoice Date'' = ''invoicedate''
   \<and> map (str_strip ex_lib) ex_columns_short
       = [''INVOICE'', ''stock_code'', ''Description'', ''PRICE'', ''Customer_ID'',
          ''invoice date'']
   \<and> resolve ex_lib (map (str_strip ex_lib) ex_columns_short)
       = [(''InvoiceNo'', Some ''INVOICE''), (''StockCode'', Some ''stock_code''),
          (''Description'', Some ''Description''), (''Quantity'', None),
          (''InvoiceDate'', Some ''invoice date''), (''UnitPrice'', Some ''PRICE''),
          (''CustomerID'', Some ''Customer_ID''), (''Country'', None)]
   \<and> normalize_columns ex_lib ex_columns_short =
       Inl (ValueError
              (''Dataset missing required columns: Quantity, Country'' @ [CHR 0x0A]
               @ ''Found columns: INVOICE, stock_code, Description, PRICE, Customer_ID, invoice date''))
   \<and> main ex_lib ex_columns_short [ex_sale] =
       Inl (ValueError
              (''Dataset missing required columns: Quantity, Country'' @ [CHR 0x0A]
               @ ''Found columns: INVOICE, stock_code, Description, PRICE, Customer_ID, invoice date''))
   \<and> (\<exists>(field, cands)\<in>set field_candidates.
         \<forall>cand\<in>set cands. \<forall>c\<in>set (map (str_strip ex_lib) ex_columns_short).
            norm_key ex_lib (str_strip ex_lib c) \<noteq> norm_key ex_lib cand)
   \<and> normalize_columns ex_lib ex_columns =
       Inr [''InvoiceNo'', ''StockCode'', ''Description'', ''Quantity'', ''InvoiceDate'',
            ''UnitPrice'', ''CustomerID'', ''Country'']"
proof -
  let ?e = "ValueError
              (''Dataset missing required columns: Quantity, Country'' @ [CHR 0x0A]
               @ ''Found columns: INVOICE, stock_code, Description, PRICE, Customer_ID, invoice date'')"
  have k1: "norm_key ex_lib ''Customer_ID'' = ''customerid''" by code_simp
  have k2: "norm_key ex_lib ''Invoice Date'' = ''invoicedate''" by code_simp
  have s: "map (str_strip ex_lib) ex_columns_short
       = [''INVOICE'', ''stock_code'', ''Description'', ''PRICE'', ''Customer_ID'',
          ''invoice date'']" by code_simp
  have r: "resolve ex_lib (map (str_strip ex_lib) ex_columns_short)
       = [(''InvoiceNo'', Some ''INVOICE''), (''StockCode'', Some ''stock_code''),
          (''Description'', Some ''Description''), (''Quantity'', None),
          (''InvoiceDate'', Some ''invoice date''), (''UnitPrice'', Some ''PRICE''),
          (''CustomerID'', Some ''Customer_ID''), (''Country'', None)]" by code_simp
  have n: "normalize_columns ex_lib ex_columns_short = Inl ?e" by code_simp
  note inst = schema_resolution [of ex_lib ex_columns_short]
  from inst n have m: "main ex_lib ex_columns_short [ex_sale] = Inl ?e" by blast
  from inst n have x: "\<exists>(field, cands)\<in>set field_candidates.
         \<forall>cand\<in>set cands. \<forall>c\<in>set (map (str_strip ex_lib) ex_columns_short).
            norm_key ex_lib (str_strip ex_lib c) \<noteq> norm_key ex_lib cand"
    by blast
  show ?thesis using k1 k2 s r n m x normalize_ex_columns by blast
qed

subsection \<open>The scan over the numbers of clusters\<close>







subsection \<open>Too few customers for the number of clusters\<close>













lemma fit_transform_ex_customers:
  "fit_transform ex_customers = Inr (standardize (features ex_customers))"
  by (simp add: fit_transform_def ex_customers_def)




subsection \<open>Segment names\<close>

lemma str_nat_nonempty: "str_nat n \<noteq> []"
  by (subst str_nat.simps) simp

lemma digit_inj:
  assumes "a < 10" "b < 10" "(char_of (48 + a) :: char) = char_of (48 + b)"
  shows "a = (b :: nat)"
proof -
  from assms(3) have "of_char (char_of (48 + a) :: char) = (of_char (char_of (48 + b) :: char) :: nat)"
    by simp
  then have "(48 + a) mod 256 = (48 + b) mod 256" by (simp only: of_char_of)
  with assms(1,2) show ?thesis by simp
qed

lemma str_nat_inj: "str_nat m = str_nat n \<Longrightarrow> m = n"
proof (induction m arbitrary: n rule: str_nat.induct)
  case (1 m)
  show ?case
  proof (cases "m < 10")
    case m: True
    show ?thesis
    proof (cases "n < 10")
      case True
      with m "1.prems" show ?thesis
        by (simp add: str_nat.simps [of m] str_nat.simps [of n] digit_inj)
    next
      case False
      with m "1.prems" have "str_nat (n div 10) = []"
        by (simp add: str_nat.simps [of m] str_nat.simps [of n] Cons_eq_append_conv)
      then show ?thesis by (simp add: str_nat_nonempty)
    qed
  next
    case m: False
    show ?thesis
    proof (cases "n < 10")
      case True
      with m "1.prems" have "str_nat (m div 10) = []"
        by (simp add: str_nat.simps [of m] str_nat.simps [of n] append_eq_Cons_conv)
      then show ?thesis by (simp add: str_nat_nonempty)
    next
      case False
      with m "1.prems" have e: "str_nat (m div 10) = str_nat (n div 10)"
        and d: "(char_of (48 + m mod 10) :: char) = char_of (48 + n mod 10)"
        by (simp_all add: str_nat.simps [of m] str_nat.simps [of n])
      from "1.IH" [OF m e] have q: "m div 10 = n div 10" .
      have r: "m mod 10 = n mod 10" by (rule digit_inj [OF _ _ d]) simp_all
      from q r show ?thesis by (metis div_mult_mod_eq)
    qed
  qed
qed

lemma segment_label_append:
  "segment_label s r @ x = segment_label s' r' @ y
     \<Longrightarrow> segment_label s r = segment_label s' r' \<and> x = y"
  by (cases s; cases r; cases s'; cases r') (simp_all add: segment_label_def)

lemma length_resolve_collisions [simp]: "length (resolve_collisions seen xs) = length xs"
  by (induction seen xs rule: resolve_collisions.induct) simp_all

lemma map_fst_resolve_collisions: "map fst (resolve_collisions seen xs) = map fst xs"
  by (induction seen xs rule: resolve_collisions.induct) simp_all

lemma resolve_collisions_nth:
  "i < length xs \<Longrightarrow>
     resolve_collisions seen xs ! i =
       (fst (xs ! i),
        if snd (xs ! i) \<in> set seen \<union> snd ` set (take i xs)
        then snd (xs ! i) @ '' ('' @ str_nat (fst (xs ! i)) @ '')''
        else snd (xs ! i))"
proof (induction seen xs arbitrary: i rule: resolve_collisions.induct)
  case (1 seen)
  then show ?case by simp
next
  case (2 seen cl nm rest)
  show ?case
  proof (cases i)
    case 0
    then show ?thesis by simp
  next
    case (Suc j)
    with "2.prems" have j: "j < length rest" by simp
    show ?thesis
    proof (cases "nm \<in> set seen")
      case True
      then have s: "set seen \<union> snd ` set (take i ((cl, nm) # rest))
                      = set seen \<union> snd ` set (take j rest)"
        using Suc by auto
      show ?thesis
        unfolding s using True Suc "2.IH"(1) [OF True j] by simp
    next
      case False
      then have s: "set seen \<union> snd ` set (take i ((cl, nm) # rest))
                      = set (nm # seen) \<union> snd ` set (take j rest)"
        using Suc by auto
      show ?thesis
        unfolding s using False Suc "2.IH"(2) [OF False j] by simp
    qed
  qed
qed

lemma map_fst_heuristic_names:
  "map fst (heuristic_names rfm_scored) = sort (remdups (map snd rfm_scored))"
  by (simp add: heuristic_names_def grp_def Let_def case_prod_beta comp_def)

lemma heuristic_names_label:
  "i < length (heuristic_names rfm_scored)
     \<Longrightarrow> \<exists>s r. snd (heuristic_names rfm_scored ! i) = segment_label s r"
  by (auto simp: heuristic_names_def Let_def case_prod_beta)

text \<open>
  Claim C8. The names that \<^verbatim>\<open>_segment_names_by_cluster\<close> returns are pairwise
  distinct, whatever the scored table and the number of clusters. The clusters are
  scanned in ascending order of their id; a cluster keeps its computed label when no
  earlier cluster has the same computed label, and otherwise receives the label
  followed by its own id in parentheses.
\<close>

theorem segment_names_distinct:
  "distinct (map snd (segment_names_by_cluster rfm_scored))
   \<and> map fst (segment_names_by_cluster rfm_scored) = sort (remdups (map snd rfm_scored))
   \<and> (\<forall>i < length (heuristic_names rfm_scored).
         segment_names_by_cluster rfm_scored ! i =
           (fst (heuristic_names rfm_scored ! i),
            if snd (heuristic_names rfm_scored ! i)
                 \<in> snd ` set (take i (heuristic_names rfm_scored))
            then snd (heuristic_names rfm_scored ! i)
                   @ '' ('' @ str_nat (fst (heuristic_names rfm_scored ! i)) @ '')''
            else snd (heuristic_names rfm_scored ! i)))"
proof -
  let ?h = "heuristic_names rfm_scored"
  let ?names = "segment_names_by_cluster rfm_scored"
  let ?suffixed = "\<lambda>i. snd (?h ! i) @ '' ('' @ str_nat (fst (?h ! i)) @ '')''"
  have nth: "?names ! i =
               (fst (?h ! i),
                if snd (?h ! i) \<in> snd ` set (take i ?h) then ?suffixed i else snd (?h ! i))"
    if "i < length ?h" for i
    using resolve_collisions_nth [OF that, of "[]"] by (simp add: segment_names_by_cluster_def)
  have keys: "map fst ?names = sort (remdups (map snd rfm_scored))"
    by (simp add: segment_names_by_cluster_def map_fst_resolve_collisions
        map_fst_heuristic_names)
  have len: "length ?names = length ?h"
    by (simp add: segment_names_by_cluster_def)
  have dk: "distinct (map fst ?h)" by (simp add: map_fst_heuristic_names)
  have ne: "snd (?names ! i) \<noteq> snd (?names ! j)"
    if i: "i < length ?h" and j: "j < length ?h" and lt: "i < j" for i j
  proof
    assume eq: "snd (?names ! i) = snd (?names ! j)"
    from heuristic_names_label [OF i] obtain s r where li: "snd (?h ! i) = segment_label s r"
      by blast
    from heuristic_names_label [OF j] obtain s' r' where lj: "snd (?h ! j) = segment_label s' r'"
      by blast
    have ck: "fst (?h ! i) \<noteq> fst (?h ! j)"
      using dk i j lt by (simp add: distinct_conv_nth)
    have earlier: "snd (?h ! i) \<in> snd ` set (take j ?h)"
    proof -
      have "?h ! i = take j ?h ! i" using lt by simp
      moreover have "i < length (take j ?h)" using lt j by simp
      ultimately have "?h ! i \<in> set (take j ?h)" by (metis nth_mem)
      then show ?thesis by (rule imageI)
    qed
    show False
    proof (cases "snd (?h ! i) \<in> snd ` set (take i ?h)")
      case ci: True
      show ?thesis
      proof (cases "snd (?h ! j) \<in> snd ` set (take j ?h)")
        case True
        with ci eq have "segment_label s r @ '' ('' @ str_nat (fst (?h ! i)) @ '')''
                          = segment_label s' r' @ '' ('' @ str_nat (fst (?h ! j)) @ '')''"
          by (simp add: nth [OF i] nth [OF j] li lj)
        from segment_label_append [OF this]
        have "str_nat (fst (?h ! i)) = str_nat (fst (?h ! j))" by simp
        then have "fst (?h ! i) = fst (?h ! j)" by (rule str_nat_inj)
        with ck show False by (rule notE)
      next
        case False
        with ci eq have "segment_label s r @ '' ('' @ str_nat (fst (?h ! i)) @ '')''
                          = segment_label s' r' @ []"
          by (simp add: nth [OF i] nth [OF j] li lj)
        from segment_label_append [OF this] show False by simp
      qed
    next
      case ci: False
      show ?thesis
      proof (cases "snd (?h ! j) \<in> snd ` set (take j ?h)")
        case True
        with ci eq have "segment_label s r @ []
                          = segment_label s' r' @ '' ('' @ str_nat (fst (?h ! j)) @ '')''"
          by (simp add: nth [OF i] nth [OF j] li lj)
        from segment_label_append [OF this] show False by simp
      next
        case False
        with ci eq have "snd (?h ! i) = snd (?h ! j)"
          by (simp add: nth [OF i] nth [OF j])
        with earlier False show False by simp
      qed
    qed
  qed
  have "distinct (map snd ?names)"
    unfolding distinct_conv_nth
  proof (intro allI impI)
    fix i j
    assume i: "i < length (map snd ?names)" and j: "j < length (map snd ?names)" and d: "i \<noteq> j"
    from i j have i': "i < length ?h" and j': "j < length ?h" by (simp_all add: len)
    from d consider "i < j" | "j < i" by linarith
    then have "snd (?names ! i) \<noteq> snd (?names ! j)"
    proof cases
      case 1
      then show ?thesis by (rule ne [OF i' j'])
    next
      case 2
      then have "snd (?names ! j) \<noteq> snd (?names ! i)" by (rule ne [OF j' i'])
      then show ?thesis by (rule not_sym)
    qed
    then show "map snd ?names ! i \<noteq> map snd ?names ! j"
      using i' j' by (simp add: len)
  qed
  then show ?thesis using keys nth by blast
qed

theorem segment_names_distinct_witness:
  "segment_names_by_cluster ex_scored =
     [(0, ''Champions''), (1, ''Champions (1)''), (2, ''At Risk / Lost''),
      (3, ''At Risk / Lost (3)''), (4, ''At Risk / Lost (4)'')]
   \<and> heuristic_names ex_scored =
     [(0, ''Champions''), (1, ''Champions''), (2, ''At Risk / Lost''),
      (3, ''At Risk / Lost''), (4, ''At Risk / Lost'')]
   \<and> distinct (map snd (segment_names_by_cluster ex_scored))
   \<and> 3 < length (heuristic_names ex_scored)
   \<and> segment_names_by_cluster ex_scored ! 3 =
       (fst (heuristic_names ex_scored ! 3),
        if snd (heuristic_names ex_scored ! 3) \<in> snd ` set (take 3 (heuristic_names ex_scored))
        then snd (heuristic_names ex_scored ! 3)
               @ '' ('' @ str_nat (fst (heuristic_names ex_scored ! 3)) @ '')''
        else snd (heuristic_names ex_scored ! 3))"
proof -
  have a: "segment_names_by_cluster ex_scored =
     [(0, ''Champions''), (1, ''Champions (1)''), (2, ''At Risk / Lost''),
      (3, ''At Risk / Lost (3)''), (4, ''At Risk / Lost (4)'')]"
    by code_simp
  have b: "heuristic_names ex_scored =
     [(0, ''Champions''), (1, ''Champions''), (2, ''At Risk / Lost''),
      (3, ''At Risk / Lost''), (4, ''At Risk / Lost'')]"
    by code_simp
  have c: "3 < length (heuristic_names ex_scored)" unfolding b by simp
  note inst = segment_names_distinct [of ex_scored]
  from inst have d: "distinct (map snd (segment_names_by_cluster ex_scored))"
    by (rule conjunct1)
  from inst c have e: "segment_names_by_cluster ex_scored ! 3 =
       (fst (heuristic_names ex_scored ! 3),
        if snd (heuristic_names ex_scored ! 3) \<in> snd ` set (take 3 (heuristic_names ex_scored))
        then snd (heuristic_names ex_scored ! 3)
               @ '' ('' @ str_nat (fst (heuristic_names ex_scored ! 3)) @ '')''
        else snd (heuristic_names ex_scored ! 3))"
    by blast
  show ?thesis using a b c d e by blast
qed


end
